theory Spec2Isabelle
  imports Main "HOL-Library.Word"
begin

unbundle bit_operations_syntax

section \<open>Python values and library functions the client relies on\<close>

text \<open>
  Exceptions are values. \<open>KeyError k\<close> is the failure of a subscript or of a \<open>del\<close>; the
  string names the key expression that was missing. \<open>Exception\<close> is the
  \<open>raise Exception(message)\<close> of the dispatcher. The state that a raising handler leaves
  behind is not part of the result.
\<close>

datatype error = KeyError string | Exception

definition lookup :: "string \<Rightarrow> 'a option \<Rightarrow> error + 'a" where
  \<comment> \<open>\<open>message[k]\<close> on a JSON object for which the field may be absent\<close>
  "lookup k v = (case v of None \<Rightarrow> Inl (KeyError k) | Some x \<Rightarrow> Inr x)"

definition getitem_default :: "'v \<Rightarrow> 'k \<Rightarrow> ('k \<rightharpoonup> 'v) \<Rightarrow> 'v \<times> ('k \<rightharpoonup> 'v)" where
  \<comment> \<open>\<open>d[k]\<close> on a \<open>defaultdict\<close>: a missing key is created with the default value\<close>
  "getitem_default dflt k m = (case m k of None \<Rightarrow> (dflt, m(k \<mapsto> dflt)) | Some v \<Rightarrow> (v, m))"

definition deque_append :: "nat \<Rightarrow> 'a list \<Rightarrow> 'a \<Rightarrow> 'a list" where
  \<comment> \<open>\<open>deque(maxlen).append(x)\<close>: append on the right, then drop the leftmost when too long\<close>
  "deque_append maxlen d x = (let d' = d @ [x] in if maxlen < length d' then tl d' else d')"

text \<open>
  A \<open>dict\<close> whose iteration order matters is an association list in insertion order:
  assigning to a key that is present overwrites in place, a new key goes to the end,
  and \<open>del\<close> of a key that is absent raises.
\<close>

fun dict_set :: "'k \<Rightarrow> 'v \<Rightarrow> ('k \<times> 'v) list \<Rightarrow> ('k \<times> 'v) list" where
  "dict_set k v [] = [(k, v)]"
| "dict_set k v ((k', v') # kvs) =
     (if k' = k then (k', v) # kvs else (k', v') # dict_set k v kvs)"

definition dict_del :: "'k \<Rightarrow> ('k \<times> 'v) list \<Rightarrow> ('k \<times> 'v) list option" where
  "dict_del k kvs =
     (if k \<in> set (map fst kvs) then Some (filter (\<lambda>kv. fst kv \<noteq> k) kvs) else None)"

fun join :: "string \<Rightarrow> string list \<Rightarrow> string" where
  "join sep [] = []"
| "join sep [x] = x"
| "join sep (x # y # ys) = x @ sep @ join sep (y # ys)"

fun zip_longest :: "'a list \<Rightarrow> 'b list \<Rightarrow> ('a option \<times> 'b option) list" where
  "zip_longest [] [] = []"
| "zip_longest (x # xs) [] = (Some x, None) # zip_longest xs []"
| "zip_longest [] (y # ys) = (None, Some y) # zip_longest [] ys"
| "zip_longest (x # xs) (y # ys) = (Some x, Some y) # zip_longest xs ys"

fun digits :: "nat \<Rightarrow> string" where
  "digits n =
     (if n < 10 then [''0123456789'' ! n]
      else digits (n div 10) @ [''0123456789'' ! (n mod 10)])"

declare digits.simps [simp del]

definition str_int :: "int \<Rightarrow> string" where
  \<comment> \<open>\<open>f'{ts}'\<close> for a Python \<open>int\<close>\<close>
  "str_int i = (if i < 0 then CHR ''-'' # digits (nat (- i)) else digits (nat i))"

definition encode :: "string \<Rightarrow> 8 word list" where
  \<comment> \<open>\<open>str.encode()\<close>: the strings built here are ASCII, one byte per character\<close>
  "encode s = map (\<lambda>c. of_nat (of_char c)) s"

text \<open>
  \<open>zlib.crc32\<close>: the CRC-32 of IEEE 802.3 in its bitwise form (reflected polynomial
  \<open>0xEDB88320\<close>, register preset to all ones and complemented at the end), read as an
  unsigned integer.
\<close>

definition crc32_bit :: "32 word \<Rightarrow> 32 word" where
  "crc32_bit c = (if bit c 0 then drop_bit 1 c XOR 0xEDB88320 else drop_bit 1 c)"

definition crc32_byte :: "32 word \<Rightarrow> 8 word \<Rightarrow> 32 word" where
  \<comment> \<open>the byte enters the low end of the register, then eight shifts\<close>
  "crc32_byte c b =
     crc32_bit (crc32_bit (crc32_bit (crc32_bit
       (crc32_bit (crc32_bit (crc32_bit (crc32_bit (c XOR ucast b))))))))"

definition crc32 :: "8 word list \<Rightarrow> int" where
  "crc32 bs = uint (NOT (foldl crc32_byte 0xFFFFFFFF bs))"

definition float_str :: "int \<Rightarrow> string" where
  \<comment> \<open>\<open>f'{float(n)}'\<close> for an integer \<open>n\<close> of magnitude below \<open>2 ^ 53\<close>, where the
      conversion is exact and Python prints the digits followed by \<open>.0\<close>. It instantiates
      the formatting parameter in the concrete evaluations only.\<close>
  "float_str n = str_int n @ ''.0''"

section \<open>Data model\<close>

datatype side = Bids | Asks

type_synonym 'n levels = "('n \<times> 'n) list"

record 'n orderbook_data =
  action :: string
  bids :: "'n levels"
  asks :: "'n levels"
  time :: 'n
  checksum :: int

definition data_side :: "'n orderbook_data \<Rightarrow> side \<Rightarrow> 'n levels" where
  \<comment> \<open>\<open>data[side]\<close>\<close>
  "data_side d side = (case side of Bids \<Rightarrow> bids d | Asks \<Rightarrow> asks d)"

text \<open>
  The \<open>data\<close> field of an inbound message: the orderbook payload, an order record (its
  \<open>id\<close> and the rest of the object as text), or any other JSON object as text.
\<close>

datatype 'n payload =
    Orderbook_data "'n orderbook_data"
  | Order_data int string
  | Other_data string

record 'n message =
  msg_type :: "string option"
  msg_code :: "int option"
  msg_channel :: "string option"
  msg_market :: "string option"
  msg_data :: "'n payload option"

text \<open>A subscription \<open>{'channel': c, 'market': m}\<close> or \<open>{'channel': c}\<close>; dict equality is structural.\<close>

datatype subscription = Subscription string "string option"

datatype frame =
    Login string string int
  | Subscribe subscription
  | Unsubscribe subscription

text \<open>
  What the client does to the outside world, in order: a frame handed to \<open>send_json\<close>,
  a blocking wait on a market's update event with its timeout, the set-then-clear pulse
  of a market's update event, and a call of \<open>reconnect\<close>.
\<close>

datatype 'n effect =
    Send frame
  | Wait string "'n option"
  | Pulse string
  | Reconnect

record 'n client =
  trades :: "string \<rightharpoonup> 'n payload list"
  fills :: "'n payload list"
  api_key :: string
  api_secret :: string
  orderbook_update_events :: "string set"
  subscriptions :: "subscription list"
  orders :: "int \<rightharpoonup> 'n payload"
  tickers :: "string \<rightharpoonup> 'n payload"
  orderbook_timestamps :: "string \<rightharpoonup> 'n"
  orderbooks :: "string \<rightharpoonup> (side \<Rightarrow> 'n levels)"
  logged_in :: bool
  last_received_orderbook_data_at :: 'n
  trace :: "'n effect list"

section \<open>FtxWebsocketClient\<close>

definition send_json :: "frame \<Rightarrow> 'n client \<Rightarrow> 'n client" where
  \<comment> \<open>Modelled from the spec: \<open>WebsocketManager.send_json\<close> is not among the sources; the
      spec has it emit the frame over the connection, recorded here in the trace.\<close>
  "send_json f s = s\<lparr>trace := trace s @ [Send f]\<rparr>"

definition reconnect :: "'n client \<Rightarrow> 'n client" where
  \<comment> \<open>Modelled from the spec: \<open>WebsocketManager.reconnect\<close> is not among the sources; the
      request to tear the connection down and open it again is recorded in the trace.\<close>
  "reconnect s = s\<lparr>trace := trace s @ [Reconnect]\<rparr>"

definition reset_data :: "('n::zero) client \<Rightarrow> 'n client" where
  "reset_data s = s\<lparr>
     subscriptions := [],
     orders := Map.empty,
     tickers := Map.empty,
     orderbook_timestamps := Map.empty,
     orderbook_update_events := {},
     orderbooks := Map.empty,
     logged_in := False,
     last_received_orderbook_data_at := 0\<rparr>"

definition init :: "('n::zero) client" where
  \<comment> \<open>\<open>__init__\<close>: the two buffers, the credentials and the event table, then \<open>_reset_data\<close>\<close>
  "init = reset_data \<lparr>
     trades = Map.empty, fills = [], api_key = [], api_secret = [],
     orderbook_update_events = {}, subscriptions = [], orders = Map.empty,
     tickers = Map.empty, orderbook_timestamps = Map.empty, orderbooks = Map.empty,
     logged_in = False, last_received_orderbook_data_at = 0, trace = []\<rparr>"

definition on_open :: "('n::zero) client \<Rightarrow> 'n client" where
  "on_open s = reset_data s"

definition reset_orderbook :: "string \<Rightarrow> 'n client \<Rightarrow> 'n client" where
  "reset_orderbook market s =
     (let s1 = (if market \<in> dom (orderbooks s)
                then s\<lparr>orderbooks := (orderbooks s)(market := None)\<rparr> else s)
      in if market \<in> dom (orderbook_timestamps s1)
         then s1\<lparr>orderbook_timestamps := (orderbook_timestamps s1)(market := None)\<rparr> else s1)"

text \<open>
  \<open>_login\<close>. The clock reading \<open>int(time.time() * 1000)\<close> is the argument \<open>ts\<close>, and
  \<open>hmac\<close> stands for \<open>hmac.new(key, msg, 'sha256').hexdigest()\<close> of the standard library.
\<close>

definition login :: "(8 word list \<Rightarrow> 8 word list \<Rightarrow> string) \<Rightarrow> int \<Rightarrow> 'n client \<Rightarrow> 'n client" where
  "login hmac ts s =
     (let s1 = send_json
           (Login (api_key s) (hmac (encode (api_secret s)) (encode (str_int ts @ ''websocket_login''))) ts) s
      in s1\<lparr>logged_in := True\<rparr>)"

definition subscribe :: "subscription \<Rightarrow> 'n client \<Rightarrow> 'n client" where
  "subscribe subscription s =
     (let s1 = send_json (Subscribe subscription) s
      in s1\<lparr>subscriptions := subscriptions s1 @ [subscription]\<rparr>)"

function remove_while :: "'a \<Rightarrow> 'a list \<Rightarrow> 'a list" where
  \<comment> \<open>\<open>while x in xs: xs.remove(x)\<close>\<close>
  "remove_while x xs = (if x \<in> set xs then remove_while x (remove1 x xs) else xs)"
  by pat_completeness auto
termination
  by (relation "measure (\<lambda>(x, xs). length xs)") (auto simp: length_remove1 dest: length_pos_if_in_set)

declare remove_while.simps [simp del]

definition unsubscribe :: "subscription \<Rightarrow> 'n client \<Rightarrow> 'n client" where
  "unsubscribe subscription s =
     (let s1 = send_json (Unsubscribe subscription) s
      in s1\<lparr>subscriptions := remove_while subscription (subscriptions s1)\<rparr>)"

definition get_fills ::
  "(8 word list \<Rightarrow> 8 word list \<Rightarrow> string) \<Rightarrow> int \<Rightarrow> 'n client \<Rightarrow> 'n payload list \<times> 'n client" where
  "get_fills hmac ts s =
     (let s1 = (if \<not> logged_in s then login hmac ts s else s);
          subscription = Subscription ''fills'' None;
          s2 = (if subscription \<notin> set (subscriptions s1) then subscribe subscription s1 else s1)
      in (fills s2, s2))"

definition get_orders ::
  "(8 word list \<Rightarrow> 8 word list \<Rightarrow> string) \<Rightarrow> int \<Rightarrow> 'n client \<Rightarrow> (int \<rightharpoonup> 'n payload) \<times> 'n client" where
  "get_orders hmac ts s =
     (let s1 = (if \<not> logged_in s then login hmac ts s else s);
          subscription = Subscription ''orders'' None;
          s2 = (if subscription \<notin> set (subscriptions s1) then subscribe subscription s1 else s1)
      in (orders s2, s2))"

definition get_trades :: "string \<Rightarrow> 'n client \<Rightarrow> 'n payload list \<times> 'n client" where
  "get_trades market s =
     (let subscription = Subscription ''trades'' (Some market);
          s1 = (if subscription \<notin> set (subscriptions s) then subscribe subscription s else s);
          (d, ts) = getitem_default [] market (trades s1)
      in (d, s1\<lparr>trades := ts\<rparr>))"

definition wait_for_orderbook_update :: "string \<Rightarrow> 'n option \<Rightarrow> 'n client \<Rightarrow> 'n client" where
  \<comment> \<open>The wait itself changes nothing: it returns on the pulse or at the timeout, and the
      caller cannot tell which.\<close>
  "wait_for_orderbook_update market timeout s =
     (let subscription = Subscription ''orderbook'' (Some market);
          s1 = (if subscription \<notin> set (subscriptions s) then subscribe subscription s else s)
      in s1\<lparr>orderbook_update_events := insert market (orderbook_update_events s1),
             trace := trace s1 @ [Wait market timeout]\<rparr>)"

definition empty_book :: "side \<Rightarrow> 'n levels" where
  \<comment> \<open>\<open>{side: defaultdict(float) for side in {'bids', 'asks'}}\<close>\<close>
  "empty_book = (\<lambda>side. [])"

definition get_orderbook ::
  "string \<Rightarrow> ('n::linordered_idom) client \<Rightarrow> (side \<Rightarrow> 'n levels) \<times> 'n client" where
  "get_orderbook market s =
     (let subscription = Subscription ''orderbook'' (Some market);
          s1 = (if subscription \<notin> set (subscriptions s) then subscribe subscription s else s);
          (t, tss) = getitem_default 0 market (orderbook_timestamps s1);
          s2 = s1\<lparr>orderbook_timestamps := tss\<rparr>;
          s3 = (if t = 0 then wait_for_orderbook_update market (Some 5) s2 else s2);
          (book, obs) = getitem_default empty_book market (orderbooks s3)
      in (\<lambda>side. sort_key (\<lambda>order. fst order * (if side = Bids then - 1 else 1))
                    (filter (\<lambda>(price, quantity). quantity \<noteq> 0) (book side)),
          s3\<lparr>orderbooks := obs\<rparr>))"

definition get_orderbook_timestamp :: "string \<Rightarrow> ('n::zero) client \<Rightarrow> 'n \<times> 'n client" where
  "get_orderbook_timestamp market s =
     (let (t, tss) = getitem_default 0 market (orderbook_timestamps s)
      in (t, s\<lparr>orderbook_timestamps := tss\<rparr>))"

definition get_ticker :: "string \<Rightarrow> 'n client \<Rightarrow> 'n payload \<times> 'n client" where
  "get_ticker market s =
     (let subscription = Subscription ''ticker'' (Some market);
          s1 = (if subscription \<notin> set (subscriptions s) then subscribe subscription s else s);
          (t, tks) = getitem_default (Other_data ''{}'') market (tickers s1)
      in (t, s1\<lparr>tickers := tks\<rparr>))"

fun apply_levels :: "('n::zero) levels \<Rightarrow> 'n levels \<Rightarrow> error + 'n levels" where
  \<comment> \<open>the inner loop of \<open>_handle_orderbook_message\<close> over \<open>data[side]\<close>\<close>
  "apply_levels [] book = Inr book"
| "apply_levels ((price, sz) # rest) book =
     (if sz \<noteq> 0 then apply_levels rest (dict_set price sz book)
      else (case dict_del price book of
              None \<Rightarrow> Inl (KeyError ''price'')
            | Some book' \<Rightarrow> apply_levels rest book'))"

definition apply_side ::
  "string \<Rightarrow> ('n::zero) orderbook_data \<Rightarrow> side \<Rightarrow> 'n client \<Rightarrow> error + 'n client" where
  \<comment> \<open>one round of the outer loop: the side's book, its levels, then the timestamp\<close>
  "apply_side market d side s =
     (let (book, obs) = getitem_default empty_book market (orderbooks s)
      in case apply_levels (data_side d side) (book side) of
           Inl e \<Rightarrow> Inl e
         | Inr lv \<Rightarrow>
             Inr (s\<lparr>orderbooks := obs(market \<mapsto> book(side := lv)),
                    orderbook_timestamps := (orderbook_timestamps s)(market \<mapsto> time d)\<rparr>))"

definition fmt_order :: "('n \<Rightarrow> string) \<Rightarrow> 'n \<times> 'n \<Rightarrow> string" where
  \<comment> \<open>\<open>f'{float(order[0])}:{float(order[1])}'\<close>, with \<open>fmt x\<close> for \<open>f'{float(x)}'\<close>\<close>
  "fmt_order fmt order = fmt (fst order) @ '':'' @ fmt (snd order)"

definition checksum_data :: "('n \<Rightarrow> string) \<Rightarrow> (side \<Rightarrow> 'n levels) \<Rightarrow> string list" where
  "checksum_data fmt orderbook =
     map (\<lambda>(bid, offer). join '':'' [fmt_order fmt order. Some order \<leftarrow> [bid, offer]])
       (zip_longest (take 100 (orderbook Bids)) (take 100 (orderbook Asks)))"

definition computed_result :: "('n \<Rightarrow> string) \<Rightarrow> (side \<Rightarrow> 'n levels) \<Rightarrow> int" where
  "computed_result fmt orderbook = crc32 (encode (join '':'' (checksum_data fmt orderbook)))"

definition pulse :: "string \<Rightarrow> 'n client \<Rightarrow> 'n client" where
  \<comment> \<open>\<open>_orderbook_update_events[market].set()\<close> then \<open>.clear()\<close>\<close>
  "pulse market s =
     s\<lparr>orderbook_update_events := insert market (orderbook_update_events s),
       trace := trace s @ [Pulse market]\<rparr>"

definition apply_orderbook_data ::
  "string \<Rightarrow> ('n::zero) orderbook_data \<Rightarrow> 'n client \<Rightarrow> error + 'n client" where
  \<comment> \<open>lines 288 to 297: the reset on a partial, then both sides. The two sides touch
      different books, so the order in which the set \<open>{'bids', 'asks'}\<close> is iterated does
      not show in the result.\<close>
  "apply_orderbook_data market d s =
     (let s1 = (if action d = ''partial'' then reset_orderbook market s else s)
      in case apply_side market d Bids s1 of
           Inl e \<Rightarrow> Inl e
         | Inr s2 \<Rightarrow> apply_side market d Asks s2)"

definition handle_orderbook_message ::
  "('n \<Rightarrow> string) \<Rightarrow> ('n::linordered_idom) message \<Rightarrow> 'n client \<Rightarrow> error + 'n client" where
  "handle_orderbook_message fmt message s =
     (case lookup ''market'' (msg_market message) of
        Inl e \<Rightarrow> Inl e
      | Inr market \<Rightarrow>
     (case lookup ''data'' (msg_data message) of
        Inl e \<Rightarrow> Inl e
      | Inr (Order_data i body) \<Rightarrow> Inl (KeyError ''action'')
      | Inr (Other_data body) \<Rightarrow> Inl (KeyError ''action'')
      | Inr (Orderbook_data d) \<Rightarrow>
     (case apply_orderbook_data market d s of
        Inl e \<Rightarrow> Inl e
      | Inr s1 \<Rightarrow>
          (let (orderbook, s2) = get_orderbook market s1;
               subscription = Subscription ''orderbook'' (Some market)
           in if computed_result fmt orderbook \<noteq> checksum d
              then Inr (subscribe subscription
                         (unsubscribe subscription
                           (reset_orderbook market
                             (s2\<lparr>last_received_orderbook_data_at := 0\<rparr>))))
              else Inr (pulse market s2)))))"

definition handle_trades_message :: "'n message \<Rightarrow> 'n client \<Rightarrow> error + 'n client" where
  "handle_trades_message message s =
     (case lookup ''market'' (msg_market message) of
        Inl e \<Rightarrow> Inl e
      | Inr market \<Rightarrow>
     (case lookup ''data'' (msg_data message) of
        Inl e \<Rightarrow> Inl e
      | Inr dat \<Rightarrow>
          (let (d, ts) = getitem_default [] market (trades s)
           in Inr (s\<lparr>trades := ts(market \<mapsto> deque_append 10000 d dat)\<rparr>))))"

definition handle_ticker_message :: "'n message \<Rightarrow> 'n client \<Rightarrow> error + 'n client" where
  "handle_ticker_message message s =
     (case lookup ''data'' (msg_data message) of
        Inl e \<Rightarrow> Inl e
      | Inr dat \<Rightarrow>
     (case lookup ''market'' (msg_market message) of
        Inl e \<Rightarrow> Inl e
      | Inr market \<Rightarrow> Inr (s\<lparr>tickers := (tickers s)(market \<mapsto> dat)\<rparr>)))"

definition handle_fills_message :: "'n message \<Rightarrow> 'n client \<Rightarrow> error + 'n client" where
  "handle_fills_message message s =
     (case lookup ''data'' (msg_data message) of
        Inl e \<Rightarrow> Inl e
      | Inr dat \<Rightarrow> Inr (s\<lparr>fills := deque_append 10000 (fills s) dat\<rparr>))"

definition handle_orders_message :: "'n message \<Rightarrow> 'n client \<Rightarrow> error + 'n client" where
  "handle_orders_message message s =
     (case lookup ''data'' (msg_data message) of
        Inl e \<Rightarrow> Inl e
      | Inr (Order_data i body) \<Rightarrow> Inr (s\<lparr>orders := (orders s)(i \<mapsto> Order_data i body)\<rparr>)
      | Inr (Orderbook_data d) \<Rightarrow> Inl (KeyError ''id'')
      | Inr (Other_data body) \<Rightarrow> Inl (KeyError ''id''))"

definition dispatch_channel ::
  "('n \<Rightarrow> string) \<Rightarrow> ('n::linordered_idom) message \<Rightarrow> 'n client \<Rightarrow> error + 'n client" where
  \<comment> \<open>\<open>_on_message\<close> from \<open>channel = message['channel']\<close> on\<close>
  "dispatch_channel fmt message s =
     (case lookup ''channel'' (msg_channel message) of
        Inl e \<Rightarrow> Inl e
      | Inr channel \<Rightarrow>
          if channel = ''orderbook'' then handle_orderbook_message fmt message s
          else if channel = ''trades'' then handle_trades_message message s
          else if channel = ''ticker'' then handle_ticker_message message s
          else if channel = ''fills'' then handle_fills_message message s
          else if channel = ''orders'' then handle_orders_message message s
          else Inr s)"

definition on_message ::
  "('n \<Rightarrow> string) \<Rightarrow> ('n::linordered_idom) message \<Rightarrow> 'n client \<Rightarrow> error + 'n client" where
  \<comment> \<open>the argument is the message after \<open>json.loads\<close>\<close>
  "on_message fmt message s =
     (case lookup ''type'' (msg_type message) of
        Inl e \<Rightarrow> Inl e
      | Inr message_type \<Rightarrow>
          if message_type \<in> {''subscribed'', ''unsubscribed''} then Inr s
          else if message_type = ''info'' then
            (case lookup ''code'' (msg_code message) of
               Inl e \<Rightarrow> Inl e
             | Inr c \<Rightarrow> if c = 20001 then Inr (reconnect s) else dispatch_channel fmt message s)
          else if message_type = ''error'' then Inl Exception
          else dispatch_channel fmt message s)"

section \<open>Runs of the client\<close>

fun handle_all :: "('m \<Rightarrow> 's \<Rightarrow> error + 's) \<Rightarrow> 'm list \<Rightarrow> 's \<Rightarrow> error + 's" where
  \<comment> \<open>the dispatch flow applies the messages in arrival order and stops at an exception\<close>
  "handle_all h [] s = Inr s"
| "handle_all h (m # ms) s = (case h m s of Inl e \<Rightarrow> Inl e | Inr s' \<Rightarrow> handle_all h ms s')"

text \<open>A market for which the client stores no price level on either side.\<close>

definition no_levels :: "string \<Rightarrow> 'n client \<Rightarrow> bool" where
  "no_levels market s \<longleftrightarrow>
     (case orderbooks s market of None \<Rightarrow> True | Some book \<Rightarrow> book Bids = [] \<and> book Asks = [])"

text \<open>
  The operations a run of the client is made of: an inbound message, the opening of a
  connection, and the public read operations (a login takes its clock reading). A run
  stops at the first exception. An operation is an orderbook message for a market when
  it is a message with channel \<open>orderbook\<close> and that market; a market is quiet in a state
  when its stored timestamp reads 0 and no level is stored for it.
\<close>

datatype 'n operation =
    On_message "'n message"
  | On_open
  | Get_fills int
  | Get_orders int
  | Get_trades string
  | Get_orderbook string
  | Get_orderbook_timestamp string
  | Wait_for_orderbook_update string "'n option"
  | Get_ticker string

fun step ::
  "('n \<Rightarrow> string) \<Rightarrow> (8 word list \<Rightarrow> 8 word list \<Rightarrow> string) \<Rightarrow> ('n::linordered_idom) operation
   \<Rightarrow> 'n client \<Rightarrow> error + 'n client" where
  "step fmt hmac (On_message message) s = on_message fmt message s"
| "step fmt hmac On_open s = Inr (on_open s)"
| "step fmt hmac (Get_fills ts) s = Inr (snd (get_fills hmac ts s))"
| "step fmt hmac (Get_orders ts) s = Inr (snd (get_orders hmac ts s))"
| "step fmt hmac (Get_trades market) s = Inr (snd (get_trades market s))"
| "step fmt hmac (Get_orderbook market) s = Inr (snd (get_orderbook market s))"
| "step fmt hmac (Get_orderbook_timestamp market) s = Inr (snd (get_orderbook_timestamp market s))"
| "step fmt hmac (Wait_for_orderbook_update market timeout) s =
     Inr (wait_for_orderbook_update market timeout s)"
| "step fmt hmac (Get_ticker market) s = Inr (snd (get_ticker market s))"

definition orderbook_message_for :: "string \<Rightarrow> 'n operation \<Rightarrow> bool" where
  "orderbook_message_for market operation \<longleftrightarrow>
     (case operation of
        On_message message \<Rightarrow>
          msg_channel message = Some ''orderbook'' \<and> msg_market message = Some market
      | _ \<Rightarrow> False)"

definition quiet :: "string \<Rightarrow> ('n::zero) client \<Rightarrow> bool" where
  "quiet market s \<longleftrightarrow> fst (get_orderbook_timestamp market s) = 0 \<and> no_levels market s"

section \<open>Observations and hypotheses of the statements\<close>

text \<open>The number a string of decimal digits stands for.\<close>

definition decimal_value :: "string \<Rightarrow> nat" where
  "decimal_value s = foldl (\<lambda>a c. 10 * a + (of_char c - 48)) 0 s"

definition arrivals :: "string \<Rightarrow> 'n message list \<Rightarrow> 'n payload list" where
  \<comment> \<open>the payloads that a message sequence carries for one market, in arrival order\<close>
  "arrivals market msgs =
     [d. msg \<leftarrow> msgs, msg_market msg = Some market, Some d \<leftarrow> [msg_data msg]]"

definition buffer :: "string \<Rightarrow> 'n client \<Rightarrow> 'n payload list" where
  "buffer market s = fst (get_trades market s)"

text \<open>
  Observing subscriptions: the subscribe frames in a stretch of the trace, what a run
  added to the trace, and a getter called twice in a row.
\<close>

definition sent_subscribes :: "'n effect list \<Rightarrow> subscription list" where
  "sent_subscribes tr = [sub. Send (Subscribe sub) \<leftarrow> tr]"

definition sent_since :: "'n client \<Rightarrow> 'n client \<Rightarrow> 'n effect list" where
  "sent_since s s' = drop (length (trace s)) (trace s')"

definition twice :: "('s \<Rightarrow> 'r \<times> 's) \<Rightarrow> 's \<Rightarrow> 's" where
  "twice f s = snd (f (snd (f s)))"

definition subscribed_once :: "subscription \<Rightarrow> 'n client \<Rightarrow> 'n client \<Rightarrow> bool" where
  \<comment> \<open>between \<open>s\<close> and \<open>s'\<close> one subscribe frame went out, for \<open>sub\<close>, if \<open>sub\<close> was not
      recorded in \<open>s\<close>, and none otherwise; the list gained \<open>sub\<close> only if it was missing\<close>
  "subscribed_once sub s s' \<longleftrightarrow>
     sent_subscribes (sent_since s s') = (if sub \<in> set (subscriptions s) then [] else [sub])
     \<and> subscriptions s' =
         (if sub \<in> set (subscriptions s) then subscriptions s else subscriptions s @ [sub])"

definition lazily :: "subscription \<Rightarrow> 'n client \<Rightarrow> 'n client \<Rightarrow> bool" where
  \<comment> \<open>one lazy subscription, seen on the subscription list and on the trace\<close>
  "lazily sub s s' \<longleftrightarrow>
     subscriptions s' =
       (if sub \<in> set (subscriptions s) then subscriptions s else subscriptions s @ [sub])
     \<and> (\<exists>ex. trace s' = trace s @ ex
             \<and> sent_subscribes ex = (if sub \<in> set (subscriptions s) then [] else [sub]))"

text \<open>
  The channels the dispatcher knows, and the message shapes that it drops: the two
  acknowledgements, and any message that reaches the channel test (not an error, and an
  info message only with a code other than the reconnect code) with a channel that is
  present and unknown.
\<close>

definition channels :: "string set" where
  "channels = {''orderbook'', ''trades'', ''ticker'', ''fills'', ''orders''}"

definition dropped_shape :: "'n message \<Rightarrow> bool" where
  "dropped_shape message \<longleftrightarrow>
     (case msg_type message of
        None \<Rightarrow> False
      | Some t \<Rightarrow>
          t \<in> {''subscribed'', ''unsubscribed''}
          \<or> (t \<noteq> ''error''
              \<and> (if t = ''info''
                  then (case msg_code message of None \<Rightarrow> False | Some c \<Rightarrow> c \<noteq> 20001)
                  else True)
              \<and> (case msg_channel message of None \<Rightarrow> False | Some ch \<Rightarrow> ch \<notin> channels)))"

text \<open>
  A market's book as a \<open>defaultdict\<close> read sees it, and a property of every stored side.
\<close>

definition book_of :: "string \<Rightarrow> 'n client \<Rightarrow> side \<Rightarrow> 'n levels" where
  "book_of market s = (case orderbooks s market of None \<Rightarrow> empty_book | Some book \<Rightarrow> book)"

definition books_all :: "('n levels \<Rightarrow> bool) \<Rightarrow> 'n client \<Rightarrow> bool" where
  "books_all P s \<longleftrightarrow> (\<forall>market book side. orderbooks s market = Some book \<longrightarrow> P (book side))"

text \<open>
  Hypotheses of the claims about message sequences: no level of a message has a
  negative size; the checksum of a message matches when it is applied in a state; a
  sequence is applied without a checksum failure.
\<close>

definition nonneg_sizes :: "('n::linordered_idom) message \<Rightarrow> bool" where
  "nonneg_sizes message \<longleftrightarrow>
     (case msg_data message of
        Some (Orderbook_data d) \<Rightarrow> list_all (\<lambda>level. 0 \<le> snd level) (bids d @ asks d)
      | _ \<Rightarrow> True)"

definition checksum_matches ::
  "('n \<Rightarrow> string) \<Rightarrow> ('n::linordered_idom) message \<Rightarrow> 'n client \<Rightarrow> bool" where
  "checksum_matches fmt message s \<longleftrightarrow>
     (case (msg_market message, msg_data message) of
        (Some market, Some (Orderbook_data d)) \<Rightarrow>
          (case apply_orderbook_data market d s of
             Inl e \<Rightarrow> False
           | Inr s1 \<Rightarrow> computed_result fmt (fst (get_orderbook market s1)) = checksum d)
      | _ \<Rightarrow> False)"

fun without_checksum_failures ::
  "('n \<Rightarrow> string) \<Rightarrow> ('n::linordered_idom) message list \<Rightarrow> 'n client \<Rightarrow> bool" where
  "without_checksum_failures fmt [] s = True"
| "without_checksum_failures fmt (m # ms) s =
     (checksum_matches fmt m s \<and>
      (case handle_orderbook_message fmt m s of
         Inl e \<Rightarrow> False
       | Inr s' \<Rightarrow> without_checksum_failures fmt ms s'))"

text \<open>
  The checksum string in the words of the specification: the first 100 levels of each
  side, paired by rank; at each rank the present levels as price:size, bid before ask,
  joined with a colon; the rank strings joined with colons.
\<close>

definition level_str :: "('n \<Rightarrow> string) \<Rightarrow> 'n \<times> 'n \<Rightarrow> string" where
  "level_str fmt level = (case level of (price, sz) \<Rightarrow> fmt price @ '':'' @ fmt sz)"

definition rank_str :: "('n \<Rightarrow> string) \<Rightarrow> 'n levels \<Rightarrow> 'n levels \<Rightarrow> nat \<Rightarrow> string" where
  "rank_str fmt bs as i =
     join '':'' ((if i < length bs then [level_str fmt (bs ! i)] else [])
                 @ (if i < length as then [level_str fmt (as ! i)] else []))"

definition spec_checksum_string :: "('n \<Rightarrow> string) \<Rightarrow> 'n levels \<Rightarrow> 'n levels \<Rightarrow> string" where
  "spec_checksum_string fmt bid_levels ask_levels =
     (let bs = take 100 bid_levels; as = take 100 ask_levels
      in join '':'' (map (rank_str fmt bs as) [0..<max (length bs) (length as)]))"

section \<open>Example inputs\<close>

text \<open>
  Orderbook messages as the exchange sends them, the type repeating the action. The
  checksums of the first three examples are the values of \<open>zlib.crc32\<close> on the strings
  \<open>100.0:1.0:101.0:1.0:99.0:2.0\<close>, \<open>99.0:2.0:101.0:1.0\<close> and \<open>100.0:-1.0\<close>; the checksum of
  the stale example matches nothing.
\<close>

definition orderbook_message :: "string \<Rightarrow> 'n orderbook_data \<Rightarrow> 'n message" where
  "orderbook_message market d =
     \<lparr>msg_type = Some (action d), msg_code = None, msg_channel = Some ''orderbook'',
      msg_market = Some market, msg_data = Some (Orderbook_data d)\<rparr>"

definition example_partial :: "int message" where
  "example_partial = orderbook_message ''BTC-PERP''
     \<lparr>action = ''partial'', bids = [(100, 1), (99, 2)], asks = [(101, 1)], time = 1,
      checksum = 483019333\<rparr>"

definition example_update :: "int message" where
  "example_update = orderbook_message ''BTC-PERP''
     \<lparr>action = ''update'', bids = [(100, 0)], asks = [], time = 2, checksum = 1311374525\<rparr>"

definition example_negative :: "int message" where
  "example_negative = orderbook_message ''BTC-PERP''
     \<lparr>action = ''partial'', bids = [(100, - 1)], asks = [], time = 1, checksum = 3842061904\<rparr>"

definition example_stale :: "int message" where
  "example_stale = orderbook_message ''BTC-PERP''
     \<lparr>action = ''partial'', bids = [(100, 1), (99, 2)], asks = [(101, 1)], time = 1,
      checksum = 7\<rparr>"

definition example_trade :: "nat \<Rightarrow> int message" where
  "example_trade i =
     \<lparr>msg_type = Some ''update'', msg_code = None, msg_channel = Some ''trades'',
      msg_market = Some ''BTC-PERP'', msg_data = Some (Other_data (digits i))\<rparr>"

definition example_fill :: "int message" where
  "example_fill =
     \<lparr>msg_type = Some ''update'', msg_code = None, msg_channel = Some ''fills'',
      msg_market = None, msg_data = Some (Other_data ''fill'')\<rparr>"

definition example_partial_trade :: "int message" where
  "example_partial_trade =
     \<lparr>msg_type = Some ''partial'', msg_code = None, msg_channel = Some ''trades'',
      msg_market = Some ''BTC-PERP'', msg_data = Some (Other_data ''0'')\<rparr>"

definition example_info :: "int message" where
  "example_info =
     \<lparr>msg_type = Some ''info'', msg_code = Some 20002, msg_channel = None,
      msg_market = None, msg_data = None\<rparr>"

definition example_markets :: "int message" where
  "example_markets =
     \<lparr>msg_type = Some ''update'', msg_code = None, msg_channel = Some ''markets'',
      msg_market = None, msg_data = Some (Other_data ''x'')\<rparr>"

definition example_operations :: "int operation list" where
  "example_operations =
     [Get_trades ''ETH-PERP'', On_message (example_trade 0), On_message example_partial,
      Get_orderbook ''BTC-PERP'']"

section \<open>Trade buffer\<close>

lemma buffer_eq: "buffer market s = (case trades s market of None \<Rightarrow> [] | Some d \<Rightarrow> d)"
  by (simp add: buffer_def get_trades_def getitem_default_def Let_def subscribe_def send_json_def
      split: option.splits)

lemma deque_append_last:
  "length d \<le> maxlen \<Longrightarrow> deque_append maxlen d x = drop (Suc (length d) - maxlen) (d @ [x])"
  by (cases d) (auto simp: deque_append_def Let_def drop_Cons')

lemma handle_trades_buffer:
  "handle_trades_message msg s = Inr s' \<Longrightarrow>
   buffer market s' =
     (if msg_market msg = Some market
      then deque_append 10000 (buffer market s) (the (msg_data msg)) else buffer market s)"
  by (auto simp: handle_trades_message_def lookup_def getitem_default_def buffer_eq
           split: option.splits)

lemma handle_trades_arrivals:
  "handle_trades_message msg s = Inr s' \<Longrightarrow>
   arrivals market (msg # msgs) =
     (if msg_market msg = Some market then the (msg_data msg) # arrivals market msgs
      else arrivals market msgs)"
  by (auto simp: handle_trades_message_def lookup_def arrivals_def split: option.splits)

lemma drop_drop_window:
  "length ys - k - n + k = length ys - n \<Longrightarrow>
   drop (length (drop k ys) - n) (drop k ys) = drop (length ys - n) ys"
  by simp

lemma drop_window:
  assumes "length b \<le> n"
  shows "drop (length (drop (Suc (length b) - n) (b @ [x]) @ xs) - n)
           (drop (Suc (length b) - n) (b @ [x]) @ xs)
         = drop (length (b @ x # xs) - n) (b @ x # xs)"
proof -
  define k where "k = Suc (length b) - n"
  define ys where "ys = b @ x # xs"
  have eq: "drop k (b @ [x]) @ xs = drop k ys"
    by (cases n) (simp_all add: k_def ys_def)
  have "length ys - k - n + k = length ys - n"
    using assms by (simp add: k_def ys_def)
  then have "drop (length (drop k ys) - n) (drop k ys) = drop (length ys - n) ys"
    by (rule drop_drop_window)
  then show ?thesis
    unfolding k_def [symmetric] eq unfolding ys_def .
qed

lemma handle_all_trades_buffer:
  "handle_all handle_trades_message msgs s = Inr s' \<Longrightarrow> length (buffer market s) \<le> 10000 \<Longrightarrow>
   buffer market s' =
     drop (length (buffer market s @ arrivals market msgs) - 10000)
       (buffer market s @ arrivals market msgs)"
proof (induction msgs arbitrary: s)
  case Nil
  then show ?case by (simp add: arrivals_def)
next
  case (Cons msg msgs)
  from Cons.prems(1) obtain s1 where
    step: "handle_trades_message msg s = Inr s1" and
    rest: "handle_all handle_trades_message msgs s1 = Inr s'"
    by (auto split: sum.splits)
  show ?case
  proof (cases "msg_market msg = Some market")
    case True
    let ?x = "the (msg_data msg)"
    have b1: "buffer market s1 = drop (Suc (length (buffer market s)) - 10000) (buffer market s @ [?x])"
      using handle_trades_buffer [OF step, of market] True Cons.prems(2)
      by (simp add: deque_append_last)
    then have len: "length (buffer market s1) \<le> 10000"
      by simp
    have arr: "arrivals market (msg # msgs) = ?x # arrivals market msgs"
      using handle_trades_arrivals [OF step, of market msgs] True by simp
    show ?thesis
      using Cons.IH [OF rest len] b1 arr drop_window [OF Cons.prems(2), of ?x "arrivals market msgs"]
      by simp
  next
    case False
    have b1: "buffer market s1 = buffer market s"
      using handle_trades_buffer [OF step, of market] False by simp
    have arr: "arrivals market (msg # msgs) = arrivals market msgs"
      using handle_trades_arrivals [OF step, of market msgs] False by simp
    show ?thesis
      using Cons.IH [OF rest] Cons.prems(2) b1 arr by simp
  qed
qed

lemma buffer_init: "buffer market init = []"
  by (simp add: buffer_eq init_def reset_data_def)

text \<open>
  C7. Whatever trades messages have been handled since the client was created, reading a
  market's trades returns the last 10000 payloads that arrived for that market, in
  arrival order, and never more than 10000 of them: the oldest are evicted first.
\<close>

theorem trades_buffer_keeps_latest:
  assumes "handle_all handle_trades_message msgs (init :: ('n::zero) client) = Inr s'"
  shows "fst (get_trades market s')
           = drop (length (arrivals market msgs) - 10000) (arrivals market msgs)
         \<and> length (fst (get_trades market s')) \<le> 10000"
proof -
  have "buffer market s'
          = drop (length (arrivals market msgs) - 10000) (arrivals market msgs)"
    using handle_all_trades_buffer [OF assms, of market] by (simp add: buffer_init)
  then show ?thesis
    by (simp add: buffer_def)
qed

lemma handle_all_trades_total:
  "\<forall>msg \<in> set msgs. msg_market msg \<noteq> None \<and> msg_data msg \<noteq> None \<Longrightarrow>
   \<exists>s'. handle_all handle_trades_message msgs s = Inr s'"
proof (induction msgs arbitrary: s)
  case Nil
  then show ?case by simp
next
  case (Cons msg msgs)
  then obtain m d where "msg_market msg = Some m" "msg_data msg = Some d"
    by auto
  then have "\<exists>s1. handle_trades_message msg s = Inr s1"
    by (cases "trades s m") (simp_all add: handle_trades_message_def lookup_def getitem_default_def)
  with Cons show ?case
    by auto
qed

lemma arrivals_example: "arrivals ''BTC-PERP'' (map example_trade is) = map (\<lambda>i. Other_data (digits i)) is"
  by (induction "is") (simp_all add: arrivals_def example_trade_def)

theorem trades_buffer_keeps_latest_witness:
  "\<exists>s'. handle_all handle_trades_message (map example_trade [0..<10001]) init = Inr s'
     \<and> fst (get_trades ''BTC-PERP'' s') = map (\<lambda>i. Other_data (digits i)) [1..<10001]
     \<and> length (fst (get_trades ''BTC-PERP'' s')) = 10000"
proof -
  obtain s' where run: "handle_all handle_trades_message (map example_trade [0..<10001]) init = Inr s'"
    using handle_all_trades_total [of "map example_trade [0..<10001]" init]
    by (auto simp: example_trade_def)
  have "fst (get_trades ''BTC-PERP'' s') = map (\<lambda>i. Other_data (digits i)) [1..<10001]"
    using trades_buffer_keeps_latest [OF run, of "''BTC-PERP''"]
    by (simp add: arrivals_example drop_map)
  with run show ?thesis
    by auto
qed

section \<open>Lazy subscription\<close>

lemma sent_subscribes_simps [simp]:
  "sent_subscribes [] = []"
  "sent_subscribes (Send (Subscribe sub) # tr) = sub # sent_subscribes tr"
  "sent_subscribes (Send (Unsubscribe sub) # tr) = sent_subscribes tr"
  "sent_subscribes (Send (Login k sg t) # tr) = sent_subscribes tr"
  "sent_subscribes (Wait m tmo # tr) = sent_subscribes tr"
  "sent_subscribes (Pulse m # tr) = sent_subscribes tr"
  "sent_subscribes (Reconnect # tr) = sent_subscribes tr"
  by (simp_all add: sent_subscribes_def)

lemma sent_subscribes_append [simp]:
  "sent_subscribes (xs @ ys) = sent_subscribes xs @ sent_subscribes ys"
  by (simp add: sent_subscribes_def)

lemma lazily_twice:
  assumes "\<And>s. lazily sub s (snd (f s))"
  shows "subscribed_once sub s (twice f s)"
proof -
  let ?s1 = "snd (f s)" and ?s2 = "snd (f (snd (f s)))"
  from assms [of s] obtain ex1 where
    subs1: "subscriptions ?s1 = (if sub \<in> set (subscriptions s) then subscriptions s else subscriptions s @ [sub])"
    and tr1: "trace ?s1 = trace s @ ex1"
    and ex1: "sent_subscribes ex1 = (if sub \<in> set (subscriptions s) then [] else [sub])"
    by (auto simp: lazily_def)
  have mem: "sub \<in> set (subscriptions ?s1)"
    using subs1 by simp
  from assms [of ?s1] mem obtain ex2 where
    subs2: "subscriptions ?s2 = subscriptions ?s1"
    and tr2: "trace ?s2 = trace ?s1 @ ex2"
    and ex2: "sent_subscribes ex2 = []"
    by (auto simp: lazily_def)
  show ?thesis
    using subs1 subs2 tr1 tr2 ex1 ex2
    by (simp add: subscribed_once_def twice_def sent_since_def)
qed

lemma subscribe_lazily:
  "lazily sub s (if sub \<notin> set (subscriptions s) then subscribe sub s else s)"
  by (simp add: lazily_def subscribe_def send_json_def)

lemma lazily_frame:
  "lazily sub s s1 \<Longrightarrow> subscriptions s' = subscriptions s1 \<Longrightarrow> trace s' = trace s1 @ ex
   \<Longrightarrow> sent_subscribes ex = [] \<Longrightarrow> lazily sub s s'"
  by (auto simp: lazily_def)

lemma get_trades_lazily:
  "lazily (Subscription ''trades'' (Some market)) s (snd (get_trades market s))"
  by (rule lazily_frame [OF subscribe_lazily, where ex = "[]"])
     (simp_all add: get_trades_def Let_def split_beta)

lemma get_ticker_lazily:
  "lazily (Subscription ''ticker'' (Some market)) s (snd (get_ticker market s))"
  by (rule lazily_frame [OF subscribe_lazily, where ex = "[]"])
     (simp_all add: get_ticker_def Let_def split_beta)

lemma lazily_trans:
  "lazily sub s s1 \<Longrightarrow> lazily sub s1 s2 \<Longrightarrow> lazily sub s s2"
  by (auto simp: lazily_def split: if_splits)

lemma lazily_after:
  "subscriptions s1 = subscriptions s \<Longrightarrow> trace s1 = trace s @ pre \<Longrightarrow> sent_subscribes pre = []
   \<Longrightarrow> lazily sub s1 s2 \<Longrightarrow> lazily sub s s2"
  by (auto simp: lazily_def split: if_splits)

lemma login_frame:
  "subscriptions (if \<not> logged_in s then login hmac ts s else s) = subscriptions s"
  "\<exists>pre. trace (if \<not> logged_in s then login hmac ts s else s) = trace s @ pre
          \<and> sent_subscribes pre = []"
  by (simp_all add: login_def send_json_def)

lemma get_fills_lazily:
  "lazily (Subscription ''fills'' None) s (snd (get_fills hmac ts s))"
proof -
  obtain pre where pre: "trace (if \<not> logged_in s then login hmac ts s else s) = trace s @ pre"
      "sent_subscribes pre = []"
    using login_frame(2) [of s hmac ts] by blast
  show ?thesis
    unfolding get_fills_def Let_def snd_conv
    by (rule lazily_after [OF login_frame(1) pre subscribe_lazily])
qed

lemma get_orders_lazily:
  "lazily (Subscription ''orders'' None) s (snd (get_orders hmac ts s))"
proof -
  obtain pre where pre: "trace (if \<not> logged_in s then login hmac ts s else s) = trace s @ pre"
      "sent_subscribes pre = []"
    using login_frame(2) [of s hmac ts] by blast
  show ?thesis
    unfolding get_orders_def Let_def snd_conv
    by (rule lazily_after [OF login_frame(1) pre subscribe_lazily])
qed

lemma wait_lazily:
  "lazily (Subscription ''orderbook'' (Some market)) s (wait_for_orderbook_update market tmo s)"
  by (rule lazily_frame [OF subscribe_lazily, where ex = "[Wait market tmo]"])
     (simp_all add: wait_for_orderbook_update_def Let_def)

lemma lazily_refl: "sub \<in> set (subscriptions s) \<Longrightarrow> lazily sub s s"
  by (simp add: lazily_def)

lemma lazily_mem: "lazily sub s s' \<Longrightarrow> sub \<in> set (subscriptions s')"
  by (auto simp: lazily_def split: if_splits)

lemma get_orderbook_lazily:
  "lazily (Subscription ''orderbook'' (Some market)) s (snd (get_orderbook market s))"
proof -
  let ?sub = "Subscription ''orderbook'' (Some market)"
  define s1 where "s1 = (if ?sub \<notin> set (subscriptions s) then subscribe ?sub s else s)"
  define t where "t = fst (getitem_default 0 market (orderbook_timestamps s1))"
  define s2 where
    "s2 = s1\<lparr>orderbook_timestamps := snd (getitem_default 0 market (orderbook_timestamps s1))\<rparr>"
  define s3 where "s3 = (if t = 0 then wait_for_orderbook_update market (Some 5) s2 else s2)"
  have l1: "lazily ?sub s s1"
    unfolding s1_def by (rule subscribe_lazily)
  have l2: "lazily ?sub s s2"
    by (rule lazily_frame [OF l1, where ex = "[]"]) (simp_all add: s2_def)
  have l3: "lazily ?sub s2 s3"
    unfolding s3_def using lazily_refl [OF lazily_mem [OF l2]] by (simp add: wait_lazily)
  have l4: "lazily ?sub s s3"
    by (rule lazily_trans [OF l2 l3])
  have "snd (get_orderbook market s)
          = s3\<lparr>orderbooks := snd (getitem_default empty_book market (orderbooks s3))\<rparr>"
    by (simp add: get_orderbook_def Let_def split_beta s1_def s2_def s3_def t_def)
  then show ?thesis
    using lazily_frame [OF l4, where ex = "[]"] by simp
qed

lemma wait_twice:
  "subscribed_once (Subscription ''orderbook'' (Some market)) s
     (twice (\<lambda>s. ((), wait_for_orderbook_update market tmo s)) s)"
  by (rule lazily_twice) (simp add: wait_lazily)

text \<open>
  C6. Each read operation, the blocking read included, subscribes lazily: called twice in
  a row it sends exactly one subscribe frame, for its own subscription, when that
  subscription was not recorded before, and none when it was; the subscription is
  appended to the list only if absent.
\<close>

theorem lazy_subscription_sends_once:
  "subscribed_once (Subscription ''trades'' (Some market)) s (twice (get_trades market) s)
   \<and> subscribed_once (Subscription ''ticker'' (Some market)) s (twice (get_ticker market) s)
   \<and> subscribed_once (Subscription ''orderbook'' (Some market)) s (twice (get_orderbook market) s)
   \<and> subscribed_once (Subscription ''fills'' None) s (twice (get_fills hmac ts) s)
   \<and> subscribed_once (Subscription ''orders'' None) s (twice (get_orders hmac ts) s)
   \<and> subscribed_once (Subscription ''orderbook'' (Some market)) s
        (twice (\<lambda>s. ((), wait_for_orderbook_update market timeout s)) s)"
  using wait_twice [of market s timeout]
    lazily_twice [of _ "get_trades market", OF get_trades_lazily]
    lazily_twice [of _ "get_ticker market", OF get_ticker_lazily]
    lazily_twice [of _ "get_orderbook market", OF get_orderbook_lazily]
    lazily_twice [of _ "get_fills hmac ts", OF get_fills_lazily]
    lazily_twice [of _ "get_orders hmac ts", OF get_orders_lazily]
  by blast

section \<open>Connection reset\<close>

text \<open>
  C5 (amended). Opening a connection empties the subscription list, the order books,
  their timestamps, the ticker cache, the order cache and the update events, clears the
  logged-in flag and the last-data marker, and leaves the trade and fill buffers as
  they were.
\<close>

theorem on_open_wipes_connection_state:
  "subscriptions (on_open s) = []
   \<and> orderbooks (on_open s) = Map.empty
   \<and> orderbook_timestamps (on_open s) = Map.empty
   \<and> tickers (on_open s) = Map.empty
   \<and> orders (on_open s) = Map.empty
   \<and> orderbook_update_events (on_open s) = {}
   \<and> \<not> logged_in (on_open s)
   \<and> last_received_orderbook_data_at (on_open s) = 0
   \<and> trades (on_open s) = trades s
   \<and> fills (on_open s) = fills s"
  by (simp add: on_open_def reset_data_def)

text \<open>
  The claim as stated fails: a trade and a fill received before the connection reopens
  are still in their buffers afterwards.
\<close>

theorem on_open_keeps_trades_and_fills:
  "map_sum id (\<lambda>s. (trades (on_open s) ''BTC-PERP'', fills (on_open s)))
     (handle_all (on_message float_str) [example_trade 0, example_fill] init)
   = Inr (Some [Other_data ''0''], [Other_data ''fill''])"
  by (simp add: on_message_def dispatch_channel_def lookup_def example_trade_def example_fill_def
        handle_trades_message_def handle_fills_message_def getitem_default_def deque_append_def
        init_def reset_data_def on_open_def digits.simps)

section \<open>Login\<close>

lemma digit_char: "n < 10 \<Longrightarrow> of_char (''0123456789'' ! n) = (48 + n :: nat)"
proof -
  assume "n < 10"
  then have "n \<in> {0, 1, 2, 3, 4, 5, 6, 7, 8, 9}"
    by auto
  then show ?thesis
    by auto
qed

lemma decimal_value_digits: "decimal_value (digits n) = n"
proof (induction n rule: digits.induct)
  case (1 n)
  show ?case
  proof (cases "n < 10")
    case True
    then show ?thesis
      by (simp add: digits.simps [of n] decimal_value_def digit_char)
  next
    case False
    have "decimal_value (digits n)
            = 10 * decimal_value (digits (n div 10)) + (of_char (''0123456789'' ! (n mod 10)) - 48)"
      using False by (simp add: digits.simps [of n] decimal_value_def)
    also have "\<dots> = 10 * (n div 10) + n mod 10"
      using 1 False by (simp add: digit_char)
    finally show ?thesis
      by simp
  qed
qed

lemma str_int_decimal: "0 \<le> ts \<Longrightarrow> decimal_value (str_int ts) = nat ts"
  by (simp add: str_int_def decimal_value_digits)

text \<open>
  C9. Login signs the bytes of the decimal timestamp (\<open>str_int\<close>, which
  \<open>str_int_decimal\<close> shows to be the decimal numeral) followed by \<open>websocket_login\<close> with
  the secret, sends one login frame with the key, that signature and the timestamp, and
  sets the logged-in flag; with secret \<open>s3cr3t\<close> at 1700000000000 the signed text is
  \<open>1700000000000websocket_login\<close>.
\<close>

theorem login_sends_signed_frame:
  "login hmac ts s =
     s\<lparr>trace := trace s @ [Send (Login (api_key s)
               (hmac (encode (api_secret s)) (encode (str_int ts @ ''websocket_login''))) ts)],
       logged_in := True\<rparr>
   \<and> trace (login hmac 1700000000000 (s\<lparr>api_secret := ''s3cr3t''\<rparr>))
       = trace s @ [Send (Login (api_key s)
                      (hmac (encode ''s3cr3t'') (encode ''1700000000000websocket_login''))
                      1700000000000)]"
  by (simp add: login_def send_json_def str_int_def digits.simps)

section \<open>Dispatch of inbound messages\<close>

lemma other_types_dispatch_on_channel:
  assumes "msg_type message = Some t"
    and "t \<notin> {''subscribed'', ''unsubscribed'', ''info'', ''error''}"
  shows "on_message fmt message s = dispatch_channel fmt message s"
  using assms by (simp add: on_message_def lookup_def)

text \<open>
  C8 (amended). A subscribed or unsubscribed acknowledgement, and any message that reaches
  the channel test with a channel that is present and is none of the five known ones,
  is dropped: no exception, and the client is exactly as before.
\<close>

theorem unrecognized_channel_dropped:
  assumes "dropped_shape message"
  shows "on_message fmt message s = Inr s"
proof -
  from assms obtain t where t: "msg_type message = Some t"
    by (auto simp: dropped_shape_def split: option.splits)
  show ?thesis
  proof (cases "t \<in> {''subscribed'', ''unsubscribed''}")
    case True
    with t show ?thesis
      by (simp add: on_message_def lookup_def)
  next
    case False
    with assms t obtain ch where ch: "msg_channel message = Some ch" "ch \<notin> channels"
      and ne: "t \<noteq> ''error''"
      and info: "t = ''info'' \<Longrightarrow> \<exists>c. msg_code message = Some c \<and> c \<noteq> 20001"
      by (auto simp: dropped_shape_def split: option.splits if_splits)
    have disp: "dispatch_channel fmt message s = Inr s"
      using ch by (simp add: dispatch_channel_def lookup_def channels_def)
    show ?thesis
    proof (cases "t = ''info''")
      case True
      with info obtain c where "msg_code message = Some c" "c \<noteq> 20001"
        by blast
      with True t disp show ?thesis
        by (simp add: on_message_def lookup_def)
    next
      case notinfo: False
      with False t ne disp show ?thesis
        by (simp add: on_message_def lookup_def)
    qed
  qed
qed

theorem unrecognized_channel_dropped_witness:
  "dropped_shape example_markets \<and> on_message float_str example_markets init = Inr init"
proof -
  have h: "dropped_shape example_markets"
    by (simp add: dropped_shape_def channels_def example_markets_def)
  show ?thesis
    using unrecognized_channel_dropped [OF h, of float_str init] h by simp
qed

text \<open>
  The claim as stated fails: a message whose type is none of subscribed, unsubscribed,
  info and error is dispatched on its channel alone, so a trades message of an unlisted
  type is stored; and an info message without the reconnect code that has no channel
  field raises.
\<close>

theorem unrecognized_type_not_dropped:
  "map_sum id (\<lambda>s. trades s ''BTC-PERP'') (on_message float_str example_partial_trade init)
     = Inr (Some [Other_data ''0''])
   \<and> trades (init :: int client) ''BTC-PERP'' = None
   \<and> on_message float_str example_info init = Inl (KeyError ''channel'')"
  by (simp add: on_message_def dispatch_channel_def lookup_def example_partial_trade_def
        example_info_def handle_trades_message_def getitem_default_def deque_append_def
        init_def reset_data_def)

section \<open>Reading and evaluating the order book\<close>

lemmas eval_defs =
  on_message_def dispatch_channel_def handle_orderbook_message_def lookup_def
  apply_orderbook_data_def apply_side_def data_side_def getitem_default_def empty_book_def
  reset_orderbook_def get_orderbook_def subscribe_def unsubscribe_def send_json_def pulse_def
  wait_for_orderbook_update_def init_def reset_data_def dict_del_def
  orderbook_message_def

lemmas checksum_defs =
  computed_result_def checksum_data_def fmt_order_def float_str_def str_int_def digits.simps
  crc32_def encode_def crc32_byte_def crc32_bit_def

lemma orderbooks_subscribe [simp]: "orderbooks (subscribe sub s) = orderbooks s"
  by (simp add: subscribe_def send_json_def)

lemma orderbooks_unsubscribe [simp]: "orderbooks (unsubscribe sub s) = orderbooks s"
  by (simp add: unsubscribe_def send_json_def)

lemma orderbooks_pulse [simp]: "orderbooks (pulse market s) = orderbooks s"
  by (simp add: pulse_def)

lemma orderbooks_wait [simp]: "orderbooks (wait_for_orderbook_update market tmo s) = orderbooks s"
  by (simp add: wait_for_orderbook_update_def Let_def)

lemma orderbooks_reset_orderbook [simp]:
  "orderbooks (reset_orderbook market s) = (orderbooks s)(market := None)"
  by (auto simp: reset_orderbook_def Let_def)

lemma get_orderbook_unfold:
  "get_orderbook market s =
     (\<lambda>side. sort_key (\<lambda>order. fst order * (if side = Bids then - 1 else 1))
                (filter (\<lambda>(price, quantity). quantity \<noteq> 0) (book_of market s side)),
      (snd (get_orderbook market s)))"
  and orderbooks_get_orderbook:
  "orderbooks (snd (get_orderbook market s)) = (orderbooks s)(market \<mapsto> book_of market s)"
proof -
  let ?sub = "Subscription ''orderbook'' (Some market)"
  define s1 where "s1 = (if ?sub \<notin> set (subscriptions s) then subscribe ?sub s else s)"
  define s2 where
    "s2 = s1\<lparr>orderbook_timestamps := snd (getitem_default 0 market (orderbook_timestamps s1))\<rparr>"
  define s3 where
    "s3 = (if fst (getitem_default 0 market (orderbook_timestamps s1)) = 0
           then wait_for_orderbook_update market (Some 5) s2 else s2)"
  have ob3: "orderbooks s3 = orderbooks s"
    by (simp add: s3_def s2_def s1_def)
  have res: "get_orderbook market s =
      (\<lambda>side. sort_key (\<lambda>order. fst order * (if side = Bids then - 1 else 1))
                 (filter (\<lambda>(price, quantity). quantity \<noteq> 0)
                    (fst (getitem_default empty_book market (orderbooks s3)) side)),
       s3\<lparr>orderbooks := snd (getitem_default empty_book market (orderbooks s3))\<rparr>)"
    by (simp add: get_orderbook_def Let_def split_beta s1_def s2_def s3_def)
  have fst_eq: "fst (getitem_default empty_book market (orderbooks s)) = book_of market s"
    and snd_eq: "snd (getitem_default empty_book market (orderbooks s))
                   = (orderbooks s)(market \<mapsto> book_of market s)"
    by (auto simp: getitem_default_def book_of_def split: option.splits)
  show "get_orderbook market s =
     (\<lambda>side. sort_key (\<lambda>order. fst order * (if side = Bids then - 1 else 1))
                (filter (\<lambda>(price, quantity). quantity \<noteq> 0) (book_of market s side)),
      (snd (get_orderbook market s)))"
    by (simp add: res ob3 fst_eq)
  show "orderbooks (snd (get_orderbook market s)) = (orderbooks s)(market \<mapsto> book_of market s)"
    by (simp add: res ob3 snd_eq)
qed

lemma get_orderbook_levels:
  "fst (get_orderbook market s) side =
     sort_key (\<lambda>order. fst order * (if side = Bids then - 1 else 1))
       (filter (\<lambda>(price, quantity). quantity \<noteq> 0) (book_of market s side))"
  by (subst get_orderbook_unfold) simp

section \<open>Applying a diff\<close>

lemma apply_levels_error: "apply_levels lv book = Inl e \<Longrightarrow> e = KeyError ''price''"
  by (induction lv book rule: apply_levels.induct) (auto split: if_splits option.splits)

lemma apply_side_book_of:
  "apply_side market d side s =
     (case apply_levels (data_side d side) (book_of market s side) of
        Inl e \<Rightarrow> Inl e
      | Inr lv \<Rightarrow>
          Inr (s\<lparr>orderbooks := (orderbooks s)(market \<mapsto> (book_of market s)(side := lv)),
                 orderbook_timestamps := (orderbook_timestamps s)(market \<mapsto> time d)\<rparr>))"
  by (simp add: apply_side_def getitem_default_def book_of_def split: option.splits sum.splits)

lemma apply_side_commute:
  "(case apply_side market d Bids s of Inl e \<Rightarrow> Inl e | Inr s1 \<Rightarrow> apply_side market d Asks s1)
   = (case apply_side market d Asks s of Inl e \<Rightarrow> Inl e | Inr s1 \<Rightarrow> apply_side market d Bids s1)"
proof (cases "apply_levels (data_side d Bids) (book_of market s Bids)")
  case bl: (Inl eb)
  show ?thesis
  proof (cases "apply_levels (data_side d Asks) (book_of market s Asks)")
    case (Inl ea)
    with bl apply_levels_error [OF bl] apply_levels_error [OF Inl] show ?thesis
      by (simp add: apply_side_book_of)
  next
    case (Inr la)
    with bl show ?thesis
      by (simp add: apply_side_book_of book_of_def)
  qed
next
  case br: (Inr lb)
  show ?thesis
  proof (cases "apply_levels (data_side d Asks) (book_of market s Asks)")
    case (Inl ea)
    with br show ?thesis
      by (simp add: apply_side_book_of book_of_def)
  next
    case (Inr la)
    with br show ?thesis
      by (simp add: apply_side_book_of book_of_def fun_upd_twist)
  qed
qed

lemma apply_levels_single:
  "apply_levels [(price, sz)] book =
     (if sz \<noteq> 0 then Inr (dict_set price sz book)
      else if price \<in> set (map fst book) then Inr (filter (\<lambda>kv. fst kv \<noteq> price) book)
      else Inl (KeyError ''price''))"
  by (simp add: dict_del_def)

lemma map_of_dict_set: "map_of (dict_set k v kvs) = (map_of kvs)(k \<mapsto> v)"
  by (induction kvs) (auto simp: fun_eq_iff)

lemma map_of_filter_key: "map_of (filter (\<lambda>kv. fst kv \<noteq> k) kvs) = (map_of kvs)(k := None)"
  by (induction kvs) (auto simp: fun_eq_iff)

lemma map_of_dict_del:
  "dict_del k kvs = Some kvs' \<Longrightarrow> map_of kvs' = (map_of kvs)(k := None)"
  by (auto simp: dict_del_def map_of_filter_key split: if_splits)

text \<open>
  C2. An update that carries size 0 for a price the book does not hold raises
  \<open>KeyError\<close> instead of succeeding: \<open>del book[price]\<close> is not guarded. The scenario of
  the claim itself (the price is present) goes through.
\<close>

theorem update_deleting_absent_price_raises:
  "on_message float_str example_update init = Inl (KeyError ''price'')
   \<and> map_sum id (\<lambda>s. (fst (get_orderbook ''BTC-PERP'' s) Bids, fst (get_orderbook ''BTC-PERP'' s) Asks))
        (handle_all (on_message float_str) [example_partial, example_update] init)
       = Inr ([(99, 2)], [(101, 1)])"
  by (simp add: eval_defs checksum_defs example_partial_def example_update_def Let_def)

section \<open>Checksum string\<close>

lemma zip_longest_ranks:
  "zip_longest xs ys =
     map (\<lambda>i. (if i < length xs then Some (xs ! i) else None,
                if i < length ys then Some (ys ! i) else None))
       [0..<max (length xs) (length ys)]"
proof (induction xs ys rule: zip_longest.induct)
  case 1
  then show ?case by simp
next
  case (2 x xs)
  then show ?case
    by (simp add: map_upt_Suc del: upt_Suc)
next
  case (3 y ys)
  then show ?case
    by (simp add: map_upt_Suc del: upt_Suc)
next
  case (4 x xs y ys)
  then show ?case
    by (simp add: map_upt_Suc del: upt_Suc)
qed

lemma checksum_data_ranks:
  "checksum_data fmt orderbook =
     map (rank_str fmt (take 100 (orderbook Bids)) (take 100 (orderbook Asks)))
       [0..<max (length (take 100 (orderbook Bids))) (length (take 100 (orderbook Asks)))]"
  unfolding checksum_data_def zip_longest_ranks
  by (simp add: rank_str_def level_str_def fmt_order_def split_beta)

lemma computed_result_ranks:
  "computed_result fmt orderbook
     = crc32 (encode (spec_checksum_string fmt (orderbook Bids) (orderbook Asks)))"
  by (simp add: computed_result_def checksum_data_ranks spec_checksum_string_def Let_def)

lemma sorted_map_sort_key_bids:
  fixes xs :: "('n::linordered_idom) levels"
  shows "sorted_wrt (\<ge>) (map fst (sort_key (\<lambda>order. fst order * - 1) xs))"
proof -
  have "sorted (map (\<lambda>order. fst order * - 1) (sort_key (\<lambda>order. fst order * - 1) xs))"
    by (rule sorted_sort_key)
  then show ?thesis
    by (simp add: sorted_wrt_map)
qed

lemma sorted_map_sort_key_asks:
  fixes xs :: "('n::linordered_idom) levels"
  shows "sorted_wrt (\<le>) (map fst (sort_key (\<lambda>order. fst order * 1) xs))"
proof -
  have "sorted (map (\<lambda>order. fst order * 1) (sort_key (\<lambda>order. fst order * 1) xs))"
    by (rule sorted_sort_key)
  then show ?thesis
    by (simp add: sorted_wrt_map)
qed

text \<open>
  C3. After an orderbook message has been applied, the checksum the handler computes is
  the CRC-32 of the bytes of the string that joins, rank by rank over the first 100
  levels of each side as \<open>get_orderbook\<close> returns them (bids by descending price, asks by
  ascending price), the present levels formatted as price:size, all joined with colons;
  and the handler pulses or resynchronises according to that value.
\<close>

theorem checksum_is_crc_of_rank_string:
  assumes "msg_market message = Some market" and "msg_data message = Some (Orderbook_data d)"
    and "apply_orderbook_data market d s = Inr s1"
  shows "computed_result fmt (fst (get_orderbook market s1))
           = crc32 (encode (spec_checksum_string fmt (fst (get_orderbook market s1) Bids)
                                                     (fst (get_orderbook market s1) Asks)))
         \<and> sorted_wrt (\<ge>) (map fst (fst (get_orderbook market s1) Bids))
         \<and> sorted_wrt (\<le>) (map fst (fst (get_orderbook market s1) Asks))
         \<and> handle_orderbook_message fmt message s
             = (if crc32 (encode (spec_checksum_string fmt (fst (get_orderbook market s1) Bids)
                                                           (fst (get_orderbook market s1) Asks)))
                   = checksum d
                then Inr (pulse market (snd (get_orderbook market s1)))
                else Inr (subscribe (Subscription ''orderbook'' (Some market))
                           (unsubscribe (Subscription ''orderbook'' (Some market))
                             (reset_orderbook market
                               (snd (get_orderbook market s1)
                                  \<lparr>last_received_orderbook_data_at := 0\<rparr>)))))"
proof -
  have crc: "computed_result fmt (fst (get_orderbook market s1))
           = crc32 (encode (spec_checksum_string fmt (fst (get_orderbook market s1) Bids)
                                                     (fst (get_orderbook market s1) Asks)))"
    by (rule computed_result_ranks)
  have srt: "sorted_wrt (\<ge>) (map fst (fst (get_orderbook market s1) Bids))"
    "sorted_wrt (\<le>) (map fst (fst (get_orderbook market s1) Asks))"
    using sorted_map_sort_key_bids sorted_map_sort_key_asks
    by (simp_all add: get_orderbook_levels)
  have "handle_orderbook_message fmt message s
          = (if computed_result fmt (fst (get_orderbook market s1)) = checksum d
             then Inr (pulse market (snd (get_orderbook market s1)))
             else Inr (subscribe (Subscription ''orderbook'' (Some market))
                        (unsubscribe (Subscription ''orderbook'' (Some market))
                          (reset_orderbook market
                            (snd (get_orderbook market s1)
                               \<lparr>last_received_orderbook_data_at := 0\<rparr>)))))"
    using assms by (simp add: handle_orderbook_message_def lookup_def split_beta Let_def)
  with crc srt show ?thesis
    by simp
qed

theorem checksum_is_crc_of_rank_string_witness:
  "\<exists>s1 d. msg_market example_partial = Some ''BTC-PERP''
      \<and> msg_data example_partial = Some (Orderbook_data d)
      \<and> apply_orderbook_data ''BTC-PERP'' d init = Inr s1
      \<and> spec_checksum_string float_str (fst (get_orderbook ''BTC-PERP'' s1) Bids)
            (fst (get_orderbook ''BTC-PERP'' s1) Asks) = ''100.0:1.0:101.0:1.0:99.0:2.0''
      \<and> computed_result float_str (fst (get_orderbook ''BTC-PERP'' s1)) = 483019333
      \<and> handle_orderbook_message float_str example_partial init
          = Inr (pulse ''BTC-PERP'' (snd (get_orderbook ''BTC-PERP'' s1)))"
proof -
  define d :: "int orderbook_data" where
    "d = \<lparr>action = ''partial'', bids = [(100, 1), (99, 2)], asks = [(101, 1)], time = 1,
          checksum = 483019333\<rparr>"
  have m: "msg_market example_partial = Some ''BTC-PERP''"
    "msg_data example_partial = Some (Orderbook_data d)"
    by (simp_all add: example_partial_def orderbook_message_def d_def)
  have "\<exists>s1. apply_orderbook_data ''BTC-PERP'' d init = Inr s1
          \<and> fst (get_orderbook ''BTC-PERP'' s1) Bids = [(100, 1), (99, 2)]
          \<and> fst (get_orderbook ''BTC-PERP'' s1) Asks = [(101, 1)]"
    by (simp add: eval_defs d_def Let_def)
  then obtain s1 where s1: "apply_orderbook_data ''BTC-PERP'' d init = Inr s1"
    and ob: "fst (get_orderbook ''BTC-PERP'' s1) Bids = [(100, 1), (99, 2)]"
      "fst (get_orderbook ''BTC-PERP'' s1) Asks = [(101, 1)]"
    by blast
  have str: "spec_checksum_string float_str (fst (get_orderbook ''BTC-PERP'' s1) Bids)
            (fst (get_orderbook ''BTC-PERP'' s1) Asks) = ''100.0:1.0:101.0:1.0:99.0:2.0''"
    by (simp add: ob spec_checksum_string_def rank_str_def level_str_def float_str_def str_int_def
          digits.simps Let_def upt_rec [of 0])
  have crc: "crc32 (encode ''100.0:1.0:101.0:1.0:99.0:2.0'') = 483019333"
    by (simp add: crc32_def encode_def crc32_byte_def crc32_bit_def)
  have chk: "checksum d = 483019333"
    by (simp add: d_def)
  from checksum_is_crc_of_rank_string [OF m s1, of float_str] str crc chk
  have "computed_result float_str (fst (get_orderbook ''BTC-PERP'' s1)) = 483019333"
    "handle_orderbook_message float_str example_partial init
       = Inr (pulse ''BTC-PERP'' (snd (get_orderbook ''BTC-PERP'' s1)))"
    by simp_all
  with m s1 str show ?thesis
    by blast
qed

section \<open>Checksum mismatch\<close>

lemma remove_while_removeAll: "remove_while x xs = removeAll x xs"
proof (induction x xs rule: remove_while.induct)
  case (1 x xs)
  show ?case
  proof (cases "x \<in> set xs")
    case True
    then have "remove_while x xs = removeAll x (remove1 x xs)"
      using 1 by (simp add: remove_while.simps [of x xs])
    also have "\<dots> = removeAll x xs"
      by (induction xs) auto
    finally show ?thesis .
  next
    case False
    then show ?thesis
      by (simp add: remove_while.simps [of x xs])
  qed
qed

lemma count_list_removeAll [simp]: "count_list (removeAll x xs) x = 0"
  by (induction xs) auto

text \<open>
  C4. When the checksum computed after applying an orderbook message differs from the one
  the server sent, the handler returns with the market's book and timestamp deleted, the
  last-data marker at 0, and exactly one orderbook subscription for the market recorded:
  all copies are removed by the unsubscribe and one is appended by the subscribe.
\<close>

theorem checksum_mismatch_resyncs:
  assumes "msg_market message = Some market" and "msg_data message = Some (Orderbook_data d)"
    and "apply_orderbook_data market d s = Inr s1"
    and "computed_result fmt (fst (get_orderbook market s1)) \<noteq> checksum d"
  shows "\<exists>s'. handle_orderbook_message fmt message s = Inr s'
           \<and> orderbooks s' market = None
           \<and> orderbook_timestamps s' market = None
           \<and> last_received_orderbook_data_at s' = 0
           \<and> count_list (subscriptions s') (Subscription ''orderbook'' (Some market)) = 1
           \<and> trace s' = trace (snd (get_orderbook market s1))
                 @ [Send (Unsubscribe (Subscription ''orderbook'' (Some market))),
                    Send (Subscribe (Subscription ''orderbook'' (Some market)))]"
proof -
  let ?sub = "Subscription ''orderbook'' (Some market)"
  define s2 where "s2 = snd (get_orderbook market s1)"
  define s' where "s' = subscribe ?sub (unsubscribe ?sub
      (reset_orderbook market (s2\<lparr>last_received_orderbook_data_at := 0\<rparr>)))"
  have run: "handle_orderbook_message fmt message s = Inr s'"
    using assms
    by (simp add: handle_orderbook_message_def lookup_def split_beta Let_def s'_def s2_def)
  have "orderbooks s' market = None" "orderbook_timestamps s' market = None"
    "last_received_orderbook_data_at s' = 0"
    "subscriptions s' = removeAll ?sub (subscriptions s2) @ [?sub]"
    "trace s' = trace s2 @ [Send (Unsubscribe ?sub), Send (Subscribe ?sub)]"
    by (auto simp: s'_def subscribe_def unsubscribe_def reset_orderbook_def send_json_def Let_def
          remove_while_removeAll)
  with run show ?thesis
    by (simp add: s2_def)
qed

theorem checksum_mismatch_resyncs_witness:
  "\<exists>s'. handle_orderbook_message float_str example_stale init = Inr s'
     \<and> orderbooks s' ''BTC-PERP'' = None
     \<and> orderbook_timestamps s' ''BTC-PERP'' = None
     \<and> last_received_orderbook_data_at s' = 0
     \<and> count_list (subscriptions s') (Subscription ''orderbook'' (Some ''BTC-PERP'')) = 1"
proof -
  define d :: "int orderbook_data" where
    "d = \<lparr>action = ''partial'', bids = [(100, 1), (99, 2)], asks = [(101, 1)], time = 1,
          checksum = 7\<rparr>"
  have m: "msg_market example_stale = Some ''BTC-PERP''"
    "msg_data example_stale = Some (Orderbook_data d)"
    by (simp_all add: example_stale_def orderbook_message_def d_def)
  have "\<exists>s1. apply_orderbook_data ''BTC-PERP'' d init = Inr s1
          \<and> computed_result float_str (fst (get_orderbook ''BTC-PERP'' s1)) \<noteq> checksum d"
    by (simp add: eval_defs checksum_defs d_def Let_def)
  then obtain s1 where s1: "apply_orderbook_data ''BTC-PERP'' d init = Inr s1"
    "computed_result float_str (fst (get_orderbook ''BTC-PERP'' s1)) \<noteq> checksum d"
    by blast
  show ?thesis
    using checksum_mismatch_resyncs [OF m s1] by blast
qed

section \<open>Sorted levels of non-zero size\<close>

lemma books_all_get_orderbook:
  "P [] \<Longrightarrow> books_all P s \<Longrightarrow> books_all P (snd (get_orderbook market s))"
  by (auto simp: books_all_def orderbooks_get_orderbook book_of_def empty_book_def
           split: option.splits if_splits)

lemma books_all_reset_orderbook:
  "books_all P s \<Longrightarrow> books_all P (reset_orderbook market s)"
  by (auto simp: books_all_def split: if_splits)

lemma books_all_orderbooks_eq:
  "orderbooks s' = orderbooks s \<Longrightarrow> books_all P s \<Longrightarrow> books_all P s'"
  by (simp add: books_all_def)

lemma books_all_apply_side:
  assumes step: "\<And>book book'. P book \<Longrightarrow> apply_levels (data_side d side) book = Inr book' \<Longrightarrow> P book'"
    and empty: "P []" and inv: "books_all P s" and run: "apply_side market d side s = Inr s'"
  shows "books_all P s'"
proof -
  define book where "book = book_of market s"
  have Pb: "P (book sd)" for sd
    using inv empty by (auto simp: book_def book_of_def books_all_def empty_book_def split: option.splits)
  from run obtain lv where lv: "apply_levels (data_side d side) (book side) = Inr lv"
    and obs: "orderbooks s' = (orderbooks s)(market \<mapsto> book(side := lv))"
    by (auto simp: apply_side_def getitem_default_def book_def book_of_def
             split: option.splits sum.splits)
  have "P lv"
    using step [OF Pb lv] .
  with Pb inv show ?thesis
    by (auto simp: books_all_def obs)
qed

lemma books_all_handle_orderbook_message:
  assumes step: "\<And>d side book book'. msg_data message = Some (Orderbook_data d) \<Longrightarrow>
              P book \<Longrightarrow> apply_levels (data_side d side) book = Inr book' \<Longrightarrow> P book'"
    and empty: "P []" and inv: "books_all P s"
    and run: "handle_orderbook_message fmt message s = Inr s'"
  shows "books_all P s'"
proof -
  from run obtain market d s1 where m: "msg_market message = Some market"
    and d: "msg_data message = Some (Orderbook_data d)"
    and s1: "apply_orderbook_data market d s = Inr s1"
    by (auto simp: handle_orderbook_message_def lookup_def
             split: option.splits sum.splits payload.splits)
  from s1 obtain sb where sb: "apply_side market d Bids
        (if action d = ''partial'' then reset_orderbook market s else s) = Inr sb"
    and sa: "apply_side market d Asks sb = Inr s1"
    by (auto simp: apply_orderbook_data_def Let_def split: sum.splits)
  have "books_all P (if action d = ''partial'' then reset_orderbook market s else s)"
    using inv by (simp add: books_all_reset_orderbook)
  then have "books_all P sb"
    using sb step [OF d] empty by (rule books_all_apply_side [rotated 2])
  then have inv1: "books_all P s1"
    using sa step [OF d] empty by (rule books_all_apply_side [rotated 2])
  define s2 where "s2 = snd (get_orderbook market s1)"
  have inv2: "books_all P s2"
    unfolding s2_def using empty inv1 by (rule books_all_get_orderbook)
  let ?sub = "Subscription ''orderbook'' (Some market)"
  from run m d s1 have "s' = subscribe ?sub (unsubscribe ?sub
        (reset_orderbook market (s2\<lparr>last_received_orderbook_data_at := 0\<rparr>)))
      \<or> s' = pulse market s2"
    by (auto simp: handle_orderbook_message_def lookup_def split_beta Let_def s2_def
             split: if_splits)
  then show ?thesis
  proof
    assume "s' = pulse market s2"
    with inv2 show ?thesis
      by (auto intro: books_all_orderbooks_eq [rotated])
  next
    assume s': "s' = subscribe ?sub (unsubscribe ?sub
        (reset_orderbook market (s2\<lparr>last_received_orderbook_data_at := 0\<rparr>)))"
    have "books_all P (s2\<lparr>last_received_orderbook_data_at := 0\<rparr>)"
      using inv2 by (simp add: books_all_def)
    then have "books_all P (reset_orderbook market (s2\<lparr>last_received_orderbook_data_at := 0\<rparr>))"
      by (rule books_all_reset_orderbook)
    then show ?thesis
      unfolding s' by (auto intro: books_all_orderbooks_eq [rotated])
  qed
qed

lemma keys_dict_set: "map fst (dict_set k v kvs) = (if k \<in> set (map fst kvs) then map fst kvs else map fst kvs @ [k])"
  by (induction kvs) (force split: if_splits)+

lemma distinct_dict_set:
  "distinct (map fst kvs) \<Longrightarrow> distinct (map fst (dict_set k v kvs))"
  by (simp add: keys_dict_set)

lemma values_dict_set: "(p, q) \<in> set (dict_set k v kvs) \<Longrightarrow> q = v \<or> (p, q) \<in> set kvs"
  by (induction kvs) (auto split: if_splits)

lemma distinct_dict_del:
  "dict_del k kvs = Some kvs' \<Longrightarrow> distinct (map fst kvs) \<Longrightarrow> distinct (map fst kvs')"
  by (auto simp: dict_del_def distinct_map_filter split: if_splits)

lemma values_dict_del: "dict_del k kvs = Some kvs' \<Longrightarrow> set kvs' \<subseteq> set kvs"
  by (auto simp: dict_del_def split: if_splits)

lemma distinct_apply_levels:
  "apply_levels lv book = Inr book' \<Longrightarrow> distinct (map fst book) \<Longrightarrow> distinct (map fst book')"
proof (induction lv arbitrary: book)
  case Nil
  then show ?case by simp
next
  case (Cons level lv)
  obtain price sz where level: "level = (price, sz)"
    by (cases level)
  show ?case
  proof (cases "sz = 0")
    case True
    with Cons.prems level obtain b1 where b1: "dict_del price book = Some b1"
      and rest: "apply_levels lv b1 = Inr book'"
      by (auto split: option.splits)
    from Cons.IH [OF rest] distinct_dict_del [OF b1 Cons.prems(2)] show ?thesis .
  next
    case False
    with Cons.prems level have rest: "apply_levels lv (dict_set price sz book) = Inr book'"
      by simp
    from Cons.IH [OF rest] distinct_dict_set [OF Cons.prems(2)] show ?thesis .
  qed
qed

lemma nonneg_apply_levels:
  "apply_levels lv book = Inr book' \<Longrightarrow> list_all (\<lambda>level. 0 \<le> snd level) lv
   \<Longrightarrow> list_all (\<lambda>level. 0 \<le> snd level) book \<Longrightarrow> list_all (\<lambda>level. 0 \<le> snd level) book'"
proof (induction lv arbitrary: book)
  case Nil
  then show ?case by simp
next
  case (Cons level lv)
  obtain price sz where level: "level = (price, sz)"
    by (cases level)
  show ?case
  proof (cases "sz = 0")
    case True
    with Cons.prems level obtain b1 where b1: "dict_del price book = Some b1"
      and rest: "apply_levels lv b1 = Inr book'"
      by (auto split: option.splits)
    have "list_all (\<lambda>level. 0 \<le> snd level) b1"
      using values_dict_del [OF b1] Cons.prems(3) by (auto simp: list_all_iff)
    with Cons.IH [OF rest] Cons.prems(2) show ?thesis
      by simp
  next
    case False
    with Cons.prems level have rest: "apply_levels lv (dict_set price sz book) = Inr book'"
      by simp
    have "list_all (\<lambda>level. 0 \<le> snd level) (dict_set price sz book)"
      using Cons.prems(2,3) level
      by (auto simp: list_all_iff dest: values_dict_set)
    with Cons.IH [OF rest] Cons.prems(2) show ?thesis
      by simp
  qed
qed

lemma distinct_map_insort_key:
  "distinct (map f (insort_key f x xs)) \<longleftrightarrow> f x \<notin> f ` set xs \<and> distinct (map f xs)"
  by (induction xs) (auto simp: set_insort_key)

lemma distinct_map_sort_key: "distinct (map f (sort_key f xs)) \<longleftrightarrow> distinct (map f xs)"
  by (induction xs) (auto simp: distinct_map_insort_key)

lemma strictly_sorted_sort_key:
  "distinct (map f xs) \<Longrightarrow> sorted_wrt (<) (map f (sort_key f xs))"
  by (simp add: strict_sorted_iff distinct_map_sort_key)

lemma bids_descending:
  fixes xs :: "('n::linordered_idom) levels"
  assumes "distinct (map fst xs)"
  shows "sorted_wrt (>) (map fst (sort_key (\<lambda>order. fst order * - 1) xs))"
proof -
  have "distinct (map (\<lambda>order. fst order * - 1) xs)"
    using assms by (simp add: distinct_map inj_on_def)
  then have "sorted_wrt (<) (map (\<lambda>order. fst order * - 1) (sort_key (\<lambda>order. fst order * - 1) xs))"
    by (rule strictly_sorted_sort_key)
  then show ?thesis
    by (simp add: sorted_wrt_map)
qed

lemma asks_ascending:
  fixes xs :: "('n::linordered_idom) levels"
  assumes "distinct (map fst xs)"
  shows "sorted_wrt (<) (map fst (sort_key (\<lambda>order. fst order * 1) xs))"
proof -
  have "distinct (map (\<lambda>order. fst order * 1) xs)"
    using assms by simp
  then have "sorted_wrt (<) (map (\<lambda>order. fst order * 1) (sort_key (\<lambda>order. fst order * 1) xs))"
    by (rule strictly_sorted_sort_key)
  then show ?thesis
    by (simp add: sorted_wrt_map)
qed

lemma books_all_handle_all:
  assumes step: "\<And>message d side book book'. message \<in> set msgs \<Longrightarrow>
              msg_data message = Some (Orderbook_data d) \<Longrightarrow>
              P book \<Longrightarrow> apply_levels (data_side d side) book = Inr book' \<Longrightarrow> P book'"
    and empty: "P []" and inv: "books_all P s"
    and run: "handle_all (handle_orderbook_message fmt) msgs s = Inr s'"
  shows "books_all P s'"
  using step inv run
proof (induction msgs arbitrary: s)
  case Nil
  then show ?case by simp
next
  case (Cons m msgs)
  from Cons.prems(3) obtain s1 where s1: "handle_orderbook_message fmt m s = Inr s1"
    and rest: "handle_all (handle_orderbook_message fmt) msgs s1 = Inr s'"
    by (auto split: sum.splits)
  have inv1: "books_all P s1"
    by (rule books_all_handle_orderbook_message [OF Cons.prems(1) empty Cons.prems(2) s1]) simp_all
  show ?case
  proof (rule Cons.IH [OF _ inv1 rest])
    fix message d side book book'
    assume a: "message \<in> set msgs" "msg_data message = Some (Orderbook_data d)" "P book"
      "apply_levels (data_side d side) book = Inr book'"
    show "P book'"
      by (rule Cons.prems(1) [OF _ a(2) a(3) a(4)]) (simp add: a(1))
  qed
qed

lemma books_all_init: "books_all P init"
  by (simp add: books_all_def init_def reset_data_def)

lemma book_of_all: "P [] \<Longrightarrow> books_all P s \<Longrightarrow> P (book_of market s side)"
  by (auto simp: books_all_def book_of_def empty_book_def split: option.splits)

text \<open>
  C1 (amended). After any sequence of orderbook messages handled without an exception
  since the client was created, \<open>get_orderbook\<close> returns on each side only levels whose
  size is not 0, bids strictly descending and asks strictly ascending by price; the
  sizes are positive when no handled message carried a negative size.
\<close>

theorem get_orderbook_sorted_nonzero:
  assumes "handle_all (handle_orderbook_message fmt) msgs init = Inr s"
  shows "list_all (\<lambda>(price, sz). sz \<noteq> 0) (fst (get_orderbook market s) side)
         \<and> sorted_wrt (>) (map fst (fst (get_orderbook market s) Bids))
         \<and> sorted_wrt (<) (map fst (fst (get_orderbook market s) Asks))
         \<and> (list_all nonneg_sizes msgs \<longrightarrow>
              list_all (\<lambda>(price, sz). 0 < sz) (fst (get_orderbook market s) side))"
proof -
  have nonzero: "list_all (\<lambda>(price, sz). sz \<noteq> 0) (fst (get_orderbook market s) side)"
    by (auto simp: get_orderbook_levels list_all_iff)
  have "books_all (\<lambda>book. distinct (map fst book)) s"
    by (rule books_all_handle_all [OF _ _ books_all_init assms]) (auto dest: distinct_apply_levels)
  then have dist: "distinct (map fst (book_of market s sd))" for sd
    using book_of_all [of "\<lambda>book. distinct (map fst book)"] by simp
  have bids: "sorted_wrt (>) (map fst (fst (get_orderbook market s) Bids))"
    using bids_descending [OF distinct_map_filter [OF dist [of Bids]]]
    by (simp add: get_orderbook_levels)
  have asks: "sorted_wrt (<) (map fst (fst (get_orderbook market s) Asks))"
    using asks_ascending [OF distinct_map_filter [OF dist [of Asks]]]
    by (simp add: get_orderbook_levels)
  have pos: "list_all (\<lambda>(price, sz). 0 < sz) (fst (get_orderbook market s) side)"
    if nn: "list_all nonneg_sizes msgs"
  proof -
    have "books_all (list_all (\<lambda>level. 0 \<le> snd level)) s"
    proof (rule books_all_handle_all [OF _ _ books_all_init assms])
      fix message d sd book book'
      assume mem: "message \<in> set msgs" and dat: "msg_data message = Some (Orderbook_data d)"
        and b: "list_all (\<lambda>level. 0 \<le> snd level) book"
        and ap: "apply_levels (data_side d sd) book = Inr book'"
      from nn mem have "nonneg_sizes message"
        by (simp add: list_all_iff)
      with dat have "list_all (\<lambda>level. 0 \<le> snd level) (bids d @ asks d)"
        by (simp add: nonneg_sizes_def)
      then have "list_all (\<lambda>level. 0 \<le> snd level) (data_side d sd)"
        by (cases sd) (simp_all add: data_side_def)
      with ap show "list_all (\<lambda>level. 0 \<le> snd level) book'"
        using b by (rule nonneg_apply_levels)
    qed simp
    then have "list_all (\<lambda>level. 0 \<le> snd level) (book_of market s side)"
      using book_of_all [of "list_all (\<lambda>level. 0 \<le> snd level)"] by simp
    then show ?thesis
      by (auto simp: get_orderbook_levels list_all_iff)
  qed
  from nonzero bids asks pos show ?thesis
    by blast
qed

lemma example_run:
  "\<exists>s. handle_all (handle_orderbook_message float_str) [example_partial, example_update] init = Inr s
      \<and> fst (get_orderbook ''BTC-PERP'' s) Bids = [(99, 2)]
      \<and> fst (get_orderbook ''BTC-PERP'' s) Asks = [(101, 1)]"
  by (simp add: eval_defs checksum_defs example_partial_def example_update_def Let_def)

theorem get_orderbook_sorted_nonzero_witness:
  "\<exists>s. handle_all (handle_orderbook_message float_str) [example_partial, example_update] init = Inr s
      \<and> list_all nonneg_sizes [example_partial, example_update]
      \<and> fst (get_orderbook ''BTC-PERP'' s) Bids = [(99, 2)]
      \<and> fst (get_orderbook ''BTC-PERP'' s) Asks = [(101, 1)]
      \<and> list_all (\<lambda>(price, sz). 0 < sz) (fst (get_orderbook ''BTC-PERP'' s) Bids)
      \<and> sorted_wrt (>) (map fst (fst (get_orderbook ''BTC-PERP'' s) Bids))
      \<and> sorted_wrt (<) (map fst (fst (get_orderbook ''BTC-PERP'' s) Asks))"
proof -
  from example_run obtain s where
    run: "handle_all (handle_orderbook_message float_str) [example_partial, example_update] init = Inr s"
    and res: "fst (get_orderbook ''BTC-PERP'' s) Bids = [(99, 2)]"
      "fst (get_orderbook ''BTC-PERP'' s) Asks = [(101, 1)]"
    by blast
  have nn: "list_all nonneg_sizes [example_partial, example_update]"
    by (simp add: nonneg_sizes_def example_partial_def example_update_def orderbook_message_def)
  from get_orderbook_sorted_nonzero [OF run, of "''BTC-PERP''" Bids] nn
  have "list_all (\<lambda>(price, sz). 0 < sz) (fst (get_orderbook ''BTC-PERP'' s) Bids)"
    "sorted_wrt (>) (map fst (fst (get_orderbook ''BTC-PERP'' s) Bids))"
    "sorted_wrt (<) (map fst (fst (get_orderbook ''BTC-PERP'' s) Asks))"
    by blast+
  with run res nn show ?thesis
    by blast
qed

text \<open>
  The claim as stated fails: a snapshot with a negative size whose checksum matches is
  applied without a checksum failure, and the level is returned with its negative size.
\<close>

theorem negative_size_is_returned:
  "without_checksum_failures float_str [example_negative] init
   \<and> map_sum id (\<lambda>s. fst (get_orderbook ''BTC-PERP'' s) Bids)
        (handle_all (handle_orderbook_message float_str) [example_negative] init)
       = Inr [(100, - 1)]"
  by (simp add: checksum_matches_def eval_defs checksum_defs example_negative_def Let_def)

section \<open>Reading the book before any data\<close>

lemma quiet_iff:
  "quiet market s \<longleftrightarrow>
     (orderbook_timestamps s market = None \<or> orderbook_timestamps s market = Some 0)
     \<and> (orderbooks s market = None
        \<or> (\<exists>book. orderbooks s market = Some book \<and> book Bids = [] \<and> book Asks = []))"
  by (auto simp: quiet_def get_orderbook_timestamp_def getitem_default_def no_levels_def split_beta
           split: option.splits)

lemma orderbook_timestamps_subscribe [simp]:
  "orderbook_timestamps (subscribe sub s) = orderbook_timestamps s"
  by (simp add: subscribe_def send_json_def)

lemma orderbook_timestamps_unsubscribe [simp]:
  "orderbook_timestamps (unsubscribe sub s) = orderbook_timestamps s"
  by (simp add: unsubscribe_def send_json_def)

lemma orderbook_timestamps_pulse [simp]: "orderbook_timestamps (pulse market s) = orderbook_timestamps s"
  by (simp add: pulse_def)

lemma orderbook_timestamps_wait [simp]:
  "orderbook_timestamps (wait_for_orderbook_update market tmo s) = orderbook_timestamps s"
  by (simp add: wait_for_orderbook_update_def Let_def)

lemma orderbook_timestamps_reset_orderbook [simp]:
  "orderbook_timestamps (reset_orderbook market s) = (orderbook_timestamps s)(market := None)"
  by (auto simp: reset_orderbook_def Let_def)

lemma orderbook_timestamps_get_orderbook:
  "orderbook_timestamps (snd (get_orderbook market s))
     = (orderbook_timestamps s)(market \<mapsto> fst (get_orderbook_timestamp market s))"
proof -
  let ?sub = "Subscription ''orderbook'' (Some market)"
  define s1 where "s1 = (if ?sub \<notin> set (subscriptions s) then subscribe ?sub s else s)"
  define s2 where
    "s2 = s1\<lparr>orderbook_timestamps := snd (getitem_default 0 market (orderbook_timestamps s1))\<rparr>"
  define s3 where
    "s3 = (if fst (getitem_default 0 market (orderbook_timestamps s1)) = 0
           then wait_for_orderbook_update market (Some 5) s2 else s2)"
  have ts1: "orderbook_timestamps s1 = orderbook_timestamps s"
    by (simp add: s1_def)
  have ts3: "orderbook_timestamps s3 = snd (getitem_default 0 market (orderbook_timestamps s))"
    by (simp add: s3_def s2_def ts1)
  have "snd (get_orderbook market s)
          = s3\<lparr>orderbooks := snd (getitem_default empty_book market (orderbooks s3))\<rparr>"
    by (simp add: get_orderbook_def Let_def split_beta s1_def s2_def s3_def)
  then show ?thesis
    by (auto simp: ts3 getitem_default_def get_orderbook_timestamp_def split_beta
             split: option.splits)
qed

lemma quiet_get_orderbook:
  "quiet market s \<Longrightarrow> quiet market (snd (get_orderbook market' s))"
  by (auto simp: quiet_iff orderbooks_get_orderbook orderbook_timestamps_get_orderbook book_of_def
        empty_book_def get_orderbook_timestamp_def getitem_default_def split_beta
        split: option.splits if_splits)

lemma quiet_same_books:
  "orderbooks s' market = orderbooks s market
   \<Longrightarrow> orderbook_timestamps s' market = orderbook_timestamps s market
   \<Longrightarrow> quiet market s \<Longrightarrow> quiet market s'"
  by (simp add: quiet_iff)

lemma apply_side_other_market:
  "apply_side market' d side s = Inr s' \<Longrightarrow> market' \<noteq> market
   \<Longrightarrow> orderbooks s' market = orderbooks s market
       \<and> orderbook_timestamps s' market = orderbook_timestamps s market"
  by (auto simp: apply_side_def getitem_default_def split: option.splits sum.splits)

lemma quiet_handle_orderbook_message:
  assumes run: "handle_orderbook_message fmt message s = Inr s'"
    and other: "msg_market message \<noteq> Some market" and q: "quiet market s"
  shows "quiet market s'"
proof -
  from run obtain market' d s1 where m: "msg_market message = Some market'"
    and d: "msg_data message = Some (Orderbook_data d)"
    and s1: "apply_orderbook_data market' d s = Inr s1"
    by (auto simp: handle_orderbook_message_def lookup_def
             split: option.splits sum.splits payload.splits)
  from m other have ne: "market' \<noteq> market"
    by simp
  define s0 where "s0 = (if action d = ''partial'' then reset_orderbook market' s else s)"
  from s1 obtain sb where sb: "apply_side market' d Bids s0 = Inr sb"
    and sa: "apply_side market' d Asks sb = Inr s1"
    by (auto simp: apply_orderbook_data_def Let_def s0_def split: sum.splits)
  have "quiet market s0"
    using q ne by (auto simp: s0_def quiet_iff)
  then have "quiet market sb"
    using apply_side_other_market [OF sb ne] by (simp add: quiet_iff)
  then have q1: "quiet market s1"
    using apply_side_other_market [OF sa ne] by (simp add: quiet_iff)
  define s2 where "s2 = snd (get_orderbook market' s1)"
  have q2: "quiet market s2"
    unfolding s2_def using q1 by (rule quiet_get_orderbook)
  let ?sub = "Subscription ''orderbook'' (Some market')"
  from run m d s1 have "s' = subscribe ?sub (unsubscribe ?sub
        (reset_orderbook market' (s2\<lparr>last_received_orderbook_data_at := 0\<rparr>)))
      \<or> s' = pulse market' s2"
    by (auto simp: handle_orderbook_message_def lookup_def split_beta Let_def s2_def
             split: if_splits)
  then show ?thesis
    using q2 ne by (auto simp: quiet_iff)
qed

lemma quiet_on_message:
  assumes run: "on_message fmt message s = Inr s'"
    and other: "\<not> (msg_channel message = Some ''orderbook'' \<and> msg_market message = Some market)"
    and q: "quiet market s"
  shows "quiet market s'"
proof -
  have disp: "quiet market s1" if d: "dispatch_channel fmt message s = Inr s1" for s1
  proof -
    from d obtain ch where ch: "msg_channel message = Some ch"
      by (auto simp: dispatch_channel_def lookup_def split: option.splits)
    show ?thesis
    proof (cases "ch = ''orderbook''")
      case True
      with d ch have "handle_orderbook_message fmt message s = Inr s1"
        by (simp add: dispatch_channel_def lookup_def)
      moreover from True ch other have "msg_market message \<noteq> Some market"
        by simp
      ultimately show ?thesis
        using q by (rule quiet_handle_orderbook_message)
    next
      case False
      with d ch have "orderbooks s1 = orderbooks s \<and> orderbook_timestamps s1 = orderbook_timestamps s"
        by (auto simp: dispatch_channel_def lookup_def handle_trades_message_def
              handle_ticker_message_def handle_fills_message_def handle_orders_message_def
              split_beta
              split: if_splits option.splits payload.splits)
      with q show ?thesis
        by (simp add: quiet_iff)
    qed
  qed
  from run have "s' = s \<or> s' = reconnect s \<or> dispatch_channel fmt message s = Inr s'"
    by (auto simp: on_message_def lookup_def split: option.splits if_splits)
  then show ?thesis
    using q disp by (auto simp: quiet_iff reconnect_def)
qed

lemma login_books [simp]:
  "orderbooks (login hmac ts s) = orderbooks s"
  "orderbook_timestamps (login hmac ts s) = orderbook_timestamps s"
  by (simp_all add: login_def send_json_def)

lemma getters_keep_books:
  "orderbooks (snd (get_fills hmac ts s)) = orderbooks s"
  "orderbook_timestamps (snd (get_fills hmac ts s)) = orderbook_timestamps s"
  "orderbooks (snd (get_orders hmac ts s)) = orderbooks s"
  "orderbook_timestamps (snd (get_orders hmac ts s)) = orderbook_timestamps s"
  "orderbooks (snd (get_trades market' s)) = orderbooks s"
  "orderbook_timestamps (snd (get_trades market' s)) = orderbook_timestamps s"
  "orderbooks (snd (get_ticker market' s)) = orderbooks s"
  "orderbook_timestamps (snd (get_ticker market' s)) = orderbook_timestamps s"
  by (simp_all add: get_fills_def get_orders_def get_trades_def get_ticker_def Let_def split_beta)

lemma quiet_step:
  assumes run: "step fmt hmac operation s = Inr s'"
    and other: "\<not> orderbook_message_for market operation" and q: "quiet market s"
  shows "quiet market s'"
proof (cases operation)
  case (On_message message)
  with run other q show ?thesis
    by (auto simp: orderbook_message_for_def intro: quiet_on_message)
next
  case On_open
  with run show ?thesis
    by (auto simp: quiet_iff on_open_def reset_data_def)
next
  case (Get_fills ts)
  with run q show ?thesis
    by (auto simp: getters_keep_books intro: quiet_same_books [rotated 2])
next
  case (Get_orders ts)
  with run q show ?thesis
    by (auto simp: getters_keep_books intro: quiet_same_books [rotated 2])
next
  case (Get_trades market')
  with run q show ?thesis
    by (auto simp: getters_keep_books intro: quiet_same_books [rotated 2])
next
  case (Get_orderbook market')
  with run q show ?thesis
    by (auto intro: quiet_get_orderbook)
next
  case (Get_orderbook_timestamp market')
  with run q show ?thesis
    by (auto simp: quiet_iff get_orderbook_timestamp_def getitem_default_def split_beta
             split: option.splits if_splits)
next
  case (Wait_for_orderbook_update market' tmo)
  with run q show ?thesis
    by (auto simp: quiet_iff)
next
  case (Get_ticker market')
  with run q show ?thesis
    by (auto simp: getters_keep_books intro: quiet_same_books [rotated 2])
qed

lemma quiet_handle_all:
  "handle_all (step fmt hmac) operations s = Inr s'
   \<Longrightarrow> list_all (\<lambda>operation. \<not> orderbook_message_for market operation) operations
   \<Longrightarrow> quiet market s \<Longrightarrow> quiet market s'"
proof (induction operations arbitrary: s)
  case Nil
  then show ?case by simp
next
  case (Cons operation operations)
  from Cons.prems(1) obtain s1 where s1: "step fmt hmac operation s = Inr s1"
    and rest: "handle_all (step fmt hmac) operations s1 = Inr s'"
    by (auto split: sum.splits)
  have "quiet market s1"
    using s1 Cons.prems(2,3) by (auto intro: quiet_step)
  with Cons.IH [OF rest] Cons.prems(2) show ?case
    by simp
qed

lemma quiet_init: "quiet market init"
  by (simp add: quiet_iff init_def reset_data_def)

lemma get_orderbook_quiet:
  assumes "quiet market s"
  shows "fst (get_orderbook market s) side = []
         \<and> trace (snd (get_orderbook market s))
             = trace s
               @ (if Subscription ''orderbook'' (Some market) \<in> set (subscriptions s) then []
                  else [Send (Subscribe (Subscription ''orderbook'' (Some market)))])
               @ [Wait market (Some 5)]"
proof -
  let ?sub = "Subscription ''orderbook'' (Some market)"
  from assms have t: "fst (get_orderbook_timestamp market s) = 0" and nl: "no_levels market s"
    by (simp_all add: quiet_def)
  define s1 where "s1 = (if ?sub \<notin> set (subscriptions s) then subscribe ?sub s else s)"
  have ts1: "orderbook_timestamps s1 = orderbook_timestamps s"
    and tr1: "trace s1 = trace s @ (if ?sub \<in> set (subscriptions s) then [] else [Send (Subscribe ?sub)])"
    and mem1: "?sub \<in> set (subscriptions s1)"
    by (simp_all add: s1_def subscribe_def send_json_def)
  have t0: "fst (getitem_default 0 market (orderbook_timestamps s1)) = 0"
    using t by (simp add: get_orderbook_timestamp_def split_beta ts1)
  define s2 where
    "s2 = s1\<lparr>orderbook_timestamps := snd (getitem_default 0 market (orderbook_timestamps s1))\<rparr>"
  define s3 where "s3 = wait_for_orderbook_update market (Some 5) s2"
  have tr3: "trace s3 = trace s1 @ [Wait market (Some 5)]"
    using mem1 by (simp add: s3_def s2_def wait_for_orderbook_update_def)
  have "snd (get_orderbook market s)
          = s3\<lparr>orderbooks := snd (getitem_default empty_book market (orderbooks s3))\<rparr>"
    using t0 by (simp add: get_orderbook_def Let_def split_beta s1_def s2_def s3_def)
  then have tr: "trace (snd (get_orderbook market s)) = trace s3"
    by simp
  have "book_of market s side = []"
    using nl by (cases side) (auto simp: no_levels_def book_of_def empty_book_def split: option.splits)
  then have "fst (get_orderbook market s) side = []"
    by (simp add: get_orderbook_levels)
  with tr tr3 tr1 show ?thesis
    by simp
qed

text \<open>
  C10. In any state the client reaches from \<open>__init__\<close> without an exception and without
  an orderbook message for the market, \<open>get_orderbook\<close> subscribes if needed, waits once
  on the market's update event with timeout 5 and, nothing having arrived, returns no
  levels on either side.
\<close>

theorem get_orderbook_before_any_data:
  assumes "handle_all (step fmt hmac) operations init = Inr s"
    and "list_all (\<lambda>operation. \<not> orderbook_message_for market operation) operations"
  shows "fst (get_orderbook market s) side = []
         \<and> trace (snd (get_orderbook market s))
             = trace s
               @ (if Subscription ''orderbook'' (Some market) \<in> set (subscriptions s) then []
                  else [Send (Subscribe (Subscription ''orderbook'' (Some market)))])
               @ [Wait market (Some 5)]"
  by (rule get_orderbook_quiet [OF quiet_handle_all [OF assms quiet_init]])

theorem get_orderbook_before_any_data_witness:
  "\<exists>s. handle_all (step float_str (\<lambda>key msg. [])) example_operations init = Inr s
     \<and> list_all (\<lambda>operation. \<not> orderbook_message_for ''ETH-PERP'' operation) example_operations
     \<and> fst (get_orderbook ''BTC-PERP'' s) Bids = [(100, 1), (99, 2)]
     \<and> fst (get_orderbook ''ETH-PERP'' s) Bids = []
     \<and> fst (get_orderbook ''ETH-PERP'' s) Asks = []
     \<and> trace (snd (get_orderbook ''ETH-PERP'' s))
         = trace s @ [Send (Subscribe (Subscription ''orderbook'' (Some ''ETH-PERP''))),
                      Wait ''ETH-PERP'' (Some 5)]"
proof -
  have "\<exists>s. handle_all (step float_str (\<lambda>key msg. [])) example_operations init = Inr s
          \<and> fst (get_orderbook ''BTC-PERP'' s) Bids = [(100, 1), (99, 2)]
          \<and> Subscription ''orderbook'' (Some ''ETH-PERP'') \<notin> set (subscriptions s)"
    by (simp add: example_operations_def eval_defs checksum_defs example_partial_def
          example_trade_def handle_trades_message_def get_trades_def deque_append_def Let_def)
  then obtain s where run: "handle_all (step float_str (\<lambda>key msg. [])) example_operations init = Inr s"
    and btc: "fst (get_orderbook ''BTC-PERP'' s) Bids = [(100, 1), (99, 2)]"
    and sub: "Subscription ''orderbook'' (Some ''ETH-PERP'') \<notin> set (subscriptions s)"
    by blast
  have other: "list_all (\<lambda>operation. \<not> orderbook_message_for ''ETH-PERP'' operation) example_operations"
    by (simp add: example_operations_def orderbook_message_for_def example_trade_def
          example_partial_def orderbook_message_def)
  from get_orderbook_before_any_data [OF run other, of Bids]
    get_orderbook_before_any_data [OF run other, of Asks] sub
  have "fst (get_orderbook ''ETH-PERP'' s) Bids = []" "fst (get_orderbook ''ETH-PERP'' s) Asks = []"
    "trace (snd (get_orderbook ''ETH-PERP'' s))
         = trace s @ [Send (Subscribe (Subscription ''orderbook'' (Some ''ETH-PERP''))),
                      Wait ''ETH-PERP'' (Some 5)]"
    by simp_all
  with run other btc show ?thesis
    by blast
qed

end
